theory Spec2Isabelle
  imports Main "HOL-Library.Sublist"
begin

section \<open>The Go standard library functions the package calls\<close>

text \<open>
  Go strings are byte sequences, here \<open>string\<close> (a list of 8-bit characters).
  Go's \<open>int\<close> is 32 or 64 bits wide depending on the platform (\<open>strconv.IntSize\<close>);
  the platform is a parameter of every function that depends on it. Integer values
  are mathematical integers, with every range check and conversion written out.
\<close>

datatype arch = Arch32 | Arch64

fun IntSize :: "arch \<Rightarrow> nat" where
  "IntSize Arch32 = 32"
| "IntSize Arch64 = 64"

text \<open>Conversion of a value to a signed integer of \<open>w\<close> bits (two's complement wrap-around).\<close>

definition to_signed :: "nat \<Rightarrow> int \<Rightarrow> int" where
  "to_signed w x = (x + 2 ^ (w - 1)) mod 2 ^ w - 2 ^ (w - 1)"

text \<open>Arithmetic on \<open>uint64\<close>: a non-negative integer reduced modulo \<open>2 ^ 64\<close>.\<close>

definition u64 :: "int \<Rightarrow> int" where
  "u64 x = x mod 2 ^ 64"

definition maxUint64 :: int where
  "maxUint64 = 2 ^ 64 - 1"

subsection \<open>Errors\<close>

text \<open>
  \<open>strconv.NumError{Func, Num, Err}\<close> with its two sentinel causes, and the errors the
  package builds with \<open>fmt.Errorf\<close>; a \<open>%w\<close> verb wraps the cause, which is kept as an
  argument of the constructor.
\<close>

datatype strconv_err = ErrSyntax | ErrRange

datatype kind =
    reflect_Invalid | reflect_Bool | reflect_Int | reflect_Int8 | reflect_Int16
  | reflect_Int32 | reflect_Int64 | reflect_Uint | reflect_Uint8 | reflect_Uint16
  | reflect_Uint32 | reflect_Uint64 | reflect_Uintptr | reflect_Float32
  | reflect_Float64 | reflect_Complex64 | reflect_Complex128 | reflect_Array
  | reflect_Chan | reflect_Func | reflect_Interface | reflect_Map | reflect_Pointer
  | reflect_Slice | reflect_String | reflect_Struct | reflect_UnsafePointer

datatype error =
    NumError string string strconv_err
      \<comment> \<open>\<open>strconv.NumError\<close>: function name, input, cause\<close>
  | UnsupportedKind kind
      \<comment> \<open>"unsupported kind: %s"\<close>
  | UnsupportedElem kind
      \<comment> \<open>"unsupported slice/array element type: %s"\<close>
  | ArrayLengthMismatch nat nat
      \<comment> \<open>"array length mismatch: got %d values, expected %d"\<close>
  | InvalidIntAt nat error
      \<comment> \<open>"invalid int value at index %d: %w"\<close>
  | InvalidInt64At nat error
      \<comment> \<open>"invalid int64 value at index %d: %w"\<close>
  | EnvError string error
      \<comment> \<open>"env %s: %w"\<close>
  | NotPointerToStruct
      \<comment> \<open>"cfg must be pointer to struct"\<close>

subsection \<open>strconv\<close>

text \<open>\<open>strconv.ParseBool\<close>: a switch with two cases of six literal strings each.\<close>

definition true_tokens :: "string set" where
  "true_tokens = {''1'', ''t'', ''T'', ''true'', ''TRUE'', ''True''}"

definition false_tokens :: "string set" where
  "false_tokens = {''0'', ''f'', ''F'', ''false'', ''FALSE'', ''False''}"

definition ParseBool :: "string \<Rightarrow> error + bool" where
  "ParseBool str =
     (if str \<in> true_tokens then Inr True
      else if str \<in> false_tokens then Inr False
      else Inl (NumError ''ParseBool'' str ErrSyntax))"

definition is_digit :: "char \<Rightarrow> bool" where
  "is_digit c = (48 \<le> (of_char c :: int) \<and> (of_char c :: int) \<le> 57)"

definition digit_val :: "char \<Rightarrow> int" where
  "digit_val c = of_char c - 48"

text \<open>
  The digit loop of \<open>strconv.ParseUint\<close> for base 10. A byte that is not a decimal
  digit is a syntax error (a letter is a digit value of at least 10, which the base
  rejects; an underscore is accepted for base 0 only). The loop returns a range error
  as soon as the value overflows, before it looks at the remaining bytes.
\<close>

fun ParseUint_loop :: "int \<Rightarrow> int \<Rightarrow> string \<Rightarrow> int \<times> strconv_err option" where
  "ParseUint_loop maxVal n [] = (n, None)"
| "ParseUint_loop maxVal n (c # cs) =
     (if \<not> is_digit c then (0, Some ErrSyntax)
      else if n \<ge> maxUint64 div 10 + 1 then (maxVal, Some ErrRange)
      else
        let n' = u64 (n * 10);
            n1 = u64 (n' + digit_val c)
        in if n1 < n' \<or> n1 > maxVal then (maxVal, Some ErrRange)
           else ParseUint_loop maxVal n1 cs)"

definition ParseUint :: "arch \<Rightarrow> string \<Rightarrow> nat \<Rightarrow> int \<times> strconv_err option" where
  "ParseUint a s bitSize =
     (if s = [] then (0, Some ErrSyntax)
      else
        let bs = (if bitSize = 0 then IntSize a else bitSize);
            maxVal = u64 (u64 (2 ^ bs) + maxUint64)
        in ParseUint_loop maxVal 0 s)"

text \<open>
  \<open>strconv.ParseInt(s, 10, bitSize)\<close>. On an error Go also returns a value (0 or the
  nearest bound); no caller in the package reads it, so the model returns the error alone.
\<close>

definition ParseInt :: "arch \<Rightarrow> string \<Rightarrow> nat \<Rightarrow> error + int" where
  "ParseInt a s bitSize =
     (if s = [] then Inl (NumError ''ParseInt'' s ErrSyntax)
      else
        let neg = (hd s = CHR ''-'');
            s1 = (if hd s = CHR ''+'' \<or> hd s = CHR ''-'' then tl s else s);
            (un, err) = ParseUint a s1 bitSize
        in if err \<noteq> None \<and> err \<noteq> Some ErrRange then Inl (NumError ''ParseInt'' s ErrSyntax)
           else
             let bs = (if bitSize = 0 then IntSize a else bitSize);
                 cutoff = 2 ^ (bs - 1)
             in if \<not> neg \<and> un \<ge> cutoff then Inl (NumError ''ParseInt'' s ErrRange)
                else if neg \<and> un > cutoff then Inl (NumError ''ParseInt'' s ErrRange)
                else Inr (if neg then - un else un))"

text \<open>
  \<open>strconv.Atoi(s)\<close> is \<open>ParseInt(s, 10, 0)\<close> converted to \<open>int\<close>, with the error's
  function name replaced (its fast path for short inputs computes the same result).
\<close>

definition Atoi :: "arch \<Rightarrow> string \<Rightarrow> error + int" where
  "Atoi a s =
     (case ParseInt a s 0 of
        Inl (NumError f num e) \<Rightarrow> Inl (NumError ''Atoi'' num e)
      | Inl e \<Rightarrow> Inl e
      | Inr i \<Rightarrow> Inr (to_signed (IntSize a) i))"

subsection \<open>strings\<close>

text \<open>\<open>strings.Split(s, sep)\<close> for a separator of one byte: never the empty list.\<close>

fun Split :: "string \<Rightarrow> char \<Rightarrow> string list" where
  "Split [] sep = [[]]"
| "Split (c # cs) sep =
     (if c = sep then [] # Split cs sep
      else (case Split cs sep of
              [] \<Rightarrow> [[c]]
            | t # ts \<Rightarrow> (c # t) # ts))"

text \<open>
  \<open>strings.TrimSpace\<close> removes leading and trailing white space as Unicode defines it
  (\<open>unicode.IsSpace\<close>): six ASCII bytes, and the runes U+0085, U+00A0, U+1680,
  U+2000 to U+200A, U+2028, U+2029, U+202F, U+205F and U+3000 in their UTF-8 encoding.
  A byte sequence that is not valid UTF-8 decodes to \<open>RuneError\<close>, which is not a space.
\<close>

definition asciiSpace :: "char \<Rightarrow> bool" where
  "asciiSpace c = (c \<in> set [CHR 0x09, CHR 0x0A, CHR 0x0B, CHR 0x0C, CHR 0x0D, CHR 0x20])"

definition space_encodings :: "string list" where
  "space_encodings =
     [[CHR 0xC2, CHR 0x85], [CHR 0xC2, CHR 0xA0], [CHR 0xE1, CHR 0x9A, CHR 0x80],
      [CHR 0xE2, CHR 0x80, CHR 0x80], [CHR 0xE2, CHR 0x80, CHR 0x81],
      [CHR 0xE2, CHR 0x80, CHR 0x82], [CHR 0xE2, CHR 0x80, CHR 0x83],
      [CHR 0xE2, CHR 0x80, CHR 0x84], [CHR 0xE2, CHR 0x80, CHR 0x85],
      [CHR 0xE2, CHR 0x80, CHR 0x86], [CHR 0xE2, CHR 0x80, CHR 0x87],
      [CHR 0xE2, CHR 0x80, CHR 0x88], [CHR 0xE2, CHR 0x80, CHR 0x89],
      [CHR 0xE2, CHR 0x80, CHR 0x8A], [CHR 0xE2, CHR 0x80, CHR 0xA8],
      [CHR 0xE2, CHR 0x80, CHR 0xA9], [CHR 0xE2, CHR 0x80, CHR 0xAF],
      [CHR 0xE2, CHR 0x81, CHR 0x9F], [CHR 0xE3, CHR 0x80, CHR 0x80]]"

text \<open>The number of bytes of the white-space rune at the front (at the end) of a string, 0 if none.\<close>

definition space_width_front :: "string \<Rightarrow> nat" where
  "space_width_front s =
     (case s of
        [] \<Rightarrow> 0
      | c # _ \<Rightarrow>
          if asciiSpace c then 1
          else (case find (\<lambda>e. prefix e s) space_encodings of
                  Some e \<Rightarrow> length e
                | None \<Rightarrow> 0))"

definition space_width_back :: "string \<Rightarrow> nat" where
  "space_width_back s =
     (case rev s of
        [] \<Rightarrow> 0
      | c # _ \<Rightarrow>
          if asciiSpace c then 1
          else (case find (\<lambda>e. suffix e s) space_encodings of
                  Some e \<Rightarrow> length e
                | None \<Rightarrow> 0))"

function TrimLeft :: "string \<Rightarrow> string" where
  "TrimLeft s = (let w = space_width_front s in if w = 0 then s else TrimLeft (drop w s))"
  by pat_completeness auto
termination
proof (relation "measure length")
  show "wf (measure length)" by simp
next
  fix s w
  assume w: "w = space_width_front s" "w \<noteq> 0"
  have "space_width_front s \<le> length s"
    by (auto simp: space_width_front_def find_Some_iff split: list.splits option.splits
        dest: prefix_length_le)
  with w show "(drop w s, s) \<in> measure length" by auto
qed

function TrimRight :: "string \<Rightarrow> string" where
  "TrimRight s =
     (let w = space_width_back s in if w = 0 then s else TrimRight (take (length s - w) s))"
  by pat_completeness auto
termination
proof (relation "measure length")
  show "wf (measure length)" by simp
next
  fix s w
  assume w: "w = space_width_back s" "w \<noteq> 0"
  have "space_width_back s \<le> length s"
  proof (cases "rev s")
    case Nil
    then show ?thesis by (simp add: space_width_back_def)
  next
    case (Cons c cs)
    then have "0 < length s" by (cases s) auto
    then show ?thesis using Cons
      by (auto simp: space_width_back_def find_Some_iff split: option.splits
          dest: suffix_length_le)
  qed
  with w show "(take (length s - w) s, s) \<in> measure length" by auto
qed

declare TrimLeft.simps [simp del]

declare TrimRight.simps [simp del]

definition TrimSpace :: "string \<Rightarrow> string" where
  "TrimSpace s = TrimRight (TrimLeft s)"


text \<open>\<open>strings.Join(elems, sep)\<close> and \<open>strconv.Itoa\<close>, which render a sequence of integers.\<close>

fun Join :: "string list \<Rightarrow> string \<Rightarrow> string" where
  "Join [] sep = []"
| "Join [x] sep = x"
| "Join (x # y # ys) sep = x @ sep @ Join (y # ys) sep"

definition digit_char :: "nat \<Rightarrow> char" where
  "digit_char d = char_of (48 + d)"

fun FormatUint :: "nat \<Rightarrow> string" where
  "FormatUint n = (if n < 10 then [digit_char n] else FormatUint (n div 10) @ [digit_char (n mod 10)])"

declare FormatUint.simps [simp del]

definition Itoa :: "int \<Rightarrow> string" where
  "Itoa i = (if i < 0 then CHR ''-'' # FormatUint (nat (- i)) else FormatUint (nat i))"

section \<open>The environment and the standalone accessors\<close>

text \<open>
  The process environment maps a variable name to its value; a variable that is set to
  the empty string is not the same as one that is not set. \<open>os.Getenv\<close> returns the
  empty string for a variable that is not set, \<open>os.LookupEnv\<close> also says whether it is.
\<close>

type_synonym environ = "string \<rightharpoonup> string"

definition Getenv :: "environ \<Rightarrow> string \<Rightarrow> string" where
  "Getenv env key = (case env key of None \<Rightarrow> [] | Some v \<Rightarrow> v)"

definition LookupEnv :: "environ \<Rightarrow> string \<Rightarrow> string \<times> bool" where
  "LookupEnv env key = (case env key of None \<Rightarrow> ([], False) | Some v \<Rightarrow> (v, True))"

definition getEnvValue :: "environ \<Rightarrow> string \<Rightarrow> string \<Rightarrow> string" where
  "getEnvValue env envName defaultValue =
     (case LookupEnv env envName of
        (v, exists) \<Rightarrow> if exists then v else defaultValue)"

definition Get :: "environ \<Rightarrow> string \<Rightarrow> string \<Rightarrow> string" where
  "Get env key defaultValue =
     (let v = Getenv env key in if v \<noteq> [] then v else defaultValue)"

definition GetBool :: "environ \<Rightarrow> string \<Rightarrow> bool \<Rightarrow> bool" where
  "GetBool env key defaultValue =
     (let v = Get env key [] in
      if v = [] then defaultValue
      else (case ParseBool v of
              Inl err \<Rightarrow> defaultValue
            | Inr parsed \<Rightarrow> parsed))"

definition GetInt :: "arch \<Rightarrow> environ \<Rightarrow> string \<Rightarrow> int \<Rightarrow> int" where
  "GetInt a env key defaultValue =
     (let v = Getenv env key in
      if v = [] then defaultValue
      else (case Atoi a v of
              Inl err \<Rightarrow> defaultValue
            | Inr parsed \<Rightarrow> parsed))"

definition GetInt64 :: "arch \<Rightarrow> environ \<Rightarrow> string \<Rightarrow> int \<Rightarrow> int" where
  "GetInt64 a env key defaultValue =
     (let v = Getenv env key in
      if v = [] then defaultValue
      else (case ParseInt a v 64 of
              Inl err \<Rightarrow> defaultValue
            | Inr parsed \<Rightarrow> parsed))"

text \<open>
  The loop \<open>for i, part := range parts\<close> that \<open>parseIntSlice\<close>, \<open>parseInt64Slice\<close> and
  \<open>setSliceOrArray\<close> each contain: they differ in the function that parses a token
  and in the error that wraps its failure, which are the first two arguments.
  \<open>i\<close> is the index of the next token and \<open>result\<close> the values appended so far.
\<close>

fun range_parts ::
  "(string \<Rightarrow> error + int) \<Rightarrow> (nat \<Rightarrow> error \<Rightarrow> error) \<Rightarrow> nat \<Rightarrow> string list \<Rightarrow> int list
     \<Rightarrow> error + int list" where
  "range_parts parse wrap i [] result = Inr result"
| "range_parts parse wrap i (part # parts) result =
     (let part = TrimSpace part in
      if part = [] then range_parts parse wrap (Suc i) parts (result @ [0])
      else (case parse part of
              Inl err \<Rightarrow> Inl (wrap i err)
            | Inr parsed \<Rightarrow> range_parts parse wrap (Suc i) parts (result @ [parsed])))"

definition parseIntSlice :: "arch \<Rightarrow> string \<Rightarrow> error + int list" where
  "parseIntSlice a v = range_parts (Atoi a) InvalidIntAt 0 (Split v (CHR '','')) []"

definition parseInt64Slice :: "arch \<Rightarrow> string \<Rightarrow> error + int list" where
  "parseInt64Slice a v =
     range_parts (\<lambda>part. ParseInt a part 64) InvalidInt64At 0 (Split v (CHR '','')) []"

text \<open>A slice is the list of its elements; a nil slice and an empty one are both \<open>[]\<close>.\<close>

definition GetIntSlice :: "arch \<Rightarrow> environ \<Rightarrow> string \<Rightarrow> int list \<Rightarrow> int list" where
  "GetIntSlice a env key defaultValue =
     (let v = Getenv env key in
      if v = [] then defaultValue
      else (case parseIntSlice a v of
              Inl err \<Rightarrow> defaultValue
            | Inr slice \<Rightarrow> slice))"

definition GetInt64Slice :: "arch \<Rightarrow> environ \<Rightarrow> string \<Rightarrow> int list \<Rightarrow> int list" where
  "GetInt64Slice a env key defaultValue =
     (let v = Getenv env key in
      if v = [] then defaultValue
      else (case parseInt64Slice a v of
              Inl err \<Rightarrow> defaultValue
            | Inr slice \<Rightarrow> slice))"

section \<open>Populating a struct\<close>

text \<open>
  What \<open>reflect\<close> shows of a value. The elements of a slice or an array are kept when
  they are \<open>int\<close> or \<open>int64\<close>; for any other element type only the element kind and
  the length are, since \<open>setSliceOrArray\<close> rejects such a field before it reads or
  writes an element. \<open>VOther\<close> is a value of any kind the other constructors do not cover.
\<close>

datatype elems = IntElems "int list" | Int64Elems "int list" | OtherElems kind nat

datatype goval =
    VString string | VBool bool | VInt int | VInt64 int
  | VSlice elems | VArray elems | VOther kind

fun elemKind :: "elems \<Rightarrow> kind" where
  "elemKind (IntElems xs) = reflect_Int"
| "elemKind (Int64Elems xs) = reflect_Int64"
| "elemKind (OtherElems k n) = k"

fun Len :: "elems \<Rightarrow> nat" where
  "Len (IntElems xs) = length xs"
| "Len (Int64Elems xs) = length xs"
| "Len (OtherElems k n) = n"

text \<open>\<open>reflect.MakeSlice(typ, n, n)\<close>: a new slice of \<open>n\<close> zero elements of the same type.\<close>

fun MakeSlice :: "elems \<Rightarrow> nat \<Rightarrow> elems" where
  "MakeSlice (IntElems xs) n = IntElems (replicate n 0)"
| "MakeSlice (Int64Elems xs) n = Int64Elems (replicate n 0)"
| "MakeSlice (OtherElems k m) n = OtherElems k n"

text \<open>
  \<open>v.Index(i).SetInt(x)\<close>: \<open>SetInt\<close> takes an \<open>int64\<close> and converts it to the element
  type. The callers stay below the length and have checked the element kind, so the
  panics of \<open>Index\<close> and \<open>SetInt\<close> are not reached.
\<close>

fun Index_SetInt :: "arch \<Rightarrow> elems \<Rightarrow> nat \<Rightarrow> int \<Rightarrow> elems" where
  "Index_SetInt a (IntElems xs) i x = IntElems (xs[i := to_signed (IntSize a) x])"
| "Index_SetInt a (Int64Elems xs) i x = Int64Elems (xs[i := x])"
| "Index_SetInt a (OtherElems k n) i x = OtherElems k n"

text \<open>
  A \<open>reflect.Value\<close> for a field of an addressable struct: it can be set exactly when
  the field is exported. A struct tag is the list of its \<open>key:"value"\<close> pairs;
  \<open>StructTag.Get\<close> returns the value of the first pair with the key, and the empty
  string for a key the tag does not have.
\<close>

record rvalue =
  CanSet :: bool
  contents :: goval

type_synonym struct_tag = "(string \<times> string) list"

definition Tag_Get :: "struct_tag \<Rightarrow> string \<Rightarrow> string" where
  "Tag_Get t key = (case map_of t key of None \<Rightarrow> [] | Some v \<Rightarrow> v)"

type_synonym struct = "(struct_tag \<times> rvalue) list"

definition setSliceOrArray :: "arch \<Rightarrow> bool \<Rightarrow> elems \<Rightarrow> string \<Rightarrow> elems \<times> error option" where
  "setSliceOrArray a isSlice es v =
     (if elemKind es \<noteq> reflect_Int \<and> elemKind es \<noteq> reflect_Int64
      then (es, Some (UnsupportedElem (elemKind es)))
      else if v = [] then
        (if isSlice then (MakeSlice es 0, None)
         else (fold (\<lambda>i es'. Index_SetInt a es' i 0) [0..<Len es] es, None))
      else
        let parts = Split v (CHR '','') in
        if \<not> isSlice \<and> length parts \<noteq> Len es
        then (es, Some (ArrayLengthMismatch (length parts) (Len es)))
        else (case range_parts (\<lambda>part. ParseInt a part 64) InvalidIntAt 0 parts [] of
                Inl err \<Rightarrow> (es, Some err)
              | Inr intValues \<Rightarrow>
                  if isSlice
                  then (fold (\<lambda>(i, x) sl. Index_SetInt a sl i x) (enumerate 0 intValues)
                          (MakeSlice es (length intValues)), None)
                  else (fold (\<lambda>(i, x) es'. Index_SetInt a es' i x) (enumerate 0 intValues) es,
                        None)))"

text \<open>
  \<open>setValue\<close> returns the field as it is after the call, with the error (\<open>None\<close> is
  Go's nil error).
\<close>

definition setValue :: "arch \<Rightarrow> rvalue \<Rightarrow> string \<Rightarrow> rvalue \<times> error option" where
  "setValue a field v =
     (if \<not> CanSet field then (field, None)
      else (case contents field of
              VString _ \<Rightarrow> (field\<lparr>contents := VString v\<rparr>, None)
            | VBool _ \<Rightarrow>
                if v = [] then (field\<lparr>contents := VBool False\<rparr>, None)
                else (case ParseBool v of
                        Inl err \<Rightarrow> (field, Some err)
                      | Inr b \<Rightarrow> (field\<lparr>contents := VBool b\<rparr>, None))
            | VInt _ \<Rightarrow>
                if v = [] then (field\<lparr>contents := VInt (to_signed (IntSize a) 0)\<rparr>, None)
                else (case ParseInt a v 64 of
                        Inl err \<Rightarrow> (field, Some err)
                      | Inr x \<Rightarrow> (field\<lparr>contents := VInt (to_signed (IntSize a) x)\<rparr>, None))
            | VInt64 _ \<Rightarrow>
                if v = [] then (field\<lparr>contents := VInt64 0\<rparr>, None)
                else (case ParseInt a v 64 of
                        Inl err \<Rightarrow> (field, Some err)
                      | Inr x \<Rightarrow> (field\<lparr>contents := VInt64 x\<rparr>, None))
            | VSlice es \<Rightarrow>
                (case setSliceOrArray a True es v of
                   (es', err) \<Rightarrow> (field\<lparr>contents := VSlice es'\<rparr>, err))
            | VArray es \<Rightarrow>
                (case setSliceOrArray a False es v of
                   (es', err) \<Rightarrow> (field\<lparr>contents := VArray es'\<rparr>, err))
            | VOther k \<Rightarrow> (field, Some (UnsupportedKind k))))"

text \<open>
  The argument of \<open>LoadStruct\<close>, an \<open>any\<close>: the nil interface, a value that is not a
  pointer, a nil pointer, or a pointer to a struct or to something else. A struct is the
  list of its fields in declaration order, each with its tag.
\<close>

datatype target = Struct struct | NonStruct kind

datatype cfg = NilInterface | ByValue target | NilPointer | PointerTo target

fun ValueOf_Kind :: "cfg \<Rightarrow> kind" where
  "ValueOf_Kind NilInterface = reflect_Invalid"
| "ValueOf_Kind (ByValue (Struct s)) = reflect_Struct"
| "ValueOf_Kind (ByValue (NonStruct k)) = k"
| "ValueOf_Kind NilPointer = reflect_Pointer"
| "ValueOf_Kind (PointerTo t) = reflect_Pointer"

text \<open>\<open>v.Elem().Kind()\<close> for a pointer \<open>v\<close>; the \<open>||\<close> of the source does not evaluate it otherwise.\<close>

fun Elem_Kind :: "cfg \<Rightarrow> kind" where
  "Elem_Kind (PointerTo (Struct s)) = reflect_Struct"
| "Elem_Kind (PointerTo (NonStruct k)) = k"
| "Elem_Kind c = reflect_Invalid"

text \<open>The loop over the fields: the struct as it is when the loop ends, and the error.\<close>

fun LoadStruct_fields :: "arch \<Rightarrow> environ \<Rightarrow> struct \<Rightarrow> struct \<times> error option" where
  "LoadStruct_fields a env [] = ([], None)"
| "LoadStruct_fields a env ((fieldType, field) # rest) =
     (let envName = Tag_Get fieldType ''env'' in
      if envName = [] then
        (case LoadStruct_fields a env rest of
           (rest', r) \<Rightarrow> ((fieldType, field) # rest', r))
      else
        let envValue = getEnvValue env envName (Tag_Get fieldType ''default'') in
        (case setValue a field envValue of
           (field', Some err) \<Rightarrow> ((fieldType, field') # rest, Some (EnvError envName err))
         | (field', None) \<Rightarrow>
             (case LoadStruct_fields a env rest of
                (rest', r) \<Rightarrow> ((fieldType, field') # rest', r))))"

definition LoadStruct :: "arch \<Rightarrow> environ \<Rightarrow> cfg \<Rightarrow> cfg \<times> error option" where
  "LoadStruct a env c =
     (if ValueOf_Kind c \<noteq> reflect_Pointer \<or> Elem_Kind c \<noteq> reflect_Struct
      then (c, Some NotPointerToStruct)
      else (case c of
              PointerTo (Struct s) \<Rightarrow>
                (case LoadStruct_fields a env s of (s', r) \<Rightarrow> (PointerTo (Struct s'), r))
            | _ \<Rightarrow> (c, Some NotPointerToStruct)))"

text \<open>
  The resolution rule in the words of the specification (section 4.1), to compare the
  two lookups of the source with: the value of the variable if it is set and non-empty,
  otherwise the fallback.
\<close>

definition resolve_spec :: "environ \<Rightarrow> string \<Rightarrow> string \<Rightarrow> string" where
  "resolve_spec env name fallback =
     (case env name of
        None \<Rightarrow> fallback
      | Some v \<Rightarrow> if v \<noteq> [] then v else fallback)"

text \<open>
  One iteration of the loop of \<open>LoadStruct\<close> on a field that does not fail: a field
  without a variable name is skipped, any other field is what \<open>setValue\<close> leaves.
\<close>

definition field_after :: "arch \<Rightarrow> environ \<Rightarrow> struct_tag \<times> rvalue \<Rightarrow> struct_tag \<times> rvalue" where
  "field_after a env tf =
     (if Tag_Get (fst tf) ''env'' = [] then tf
      else (fst tf,
            fst (setValue a (snd tf)
                   (getEnvValue env (Tag_Get (fst tf) ''env'') (Tag_Get (fst tf) ''default'')))))"

text \<open>Whether the loop of \<open>LoadStruct\<close> gets an error from \<open>setValue\<close> on a field.\<close>

definition field_fails :: "arch \<Rightarrow> environ \<Rightarrow> struct_tag \<times> rvalue \<Rightarrow> bool" where
  "field_fails a env tf =
     (Tag_Get (fst tf) ''env'' \<noteq> [] \<and>
      snd (setValue a (snd tf)
             (getEnvValue env (Tag_Get (fst tf) ''env'') (Tag_Get (fst tf) ''default''))) \<noteq> None)"

text \<open>
  The boolean tokens in the words of the specification (claim C4): true, false, 1, 0,
  t, f, T, F and their case variants, that is the strings that differ from one of
  them in the case of letters only.
\<close>

definition ascii_lower :: "char \<Rightarrow> char" where
  "ascii_lower c =
     (if 65 \<le> (of_char c :: nat) \<and> (of_char c :: nat) \<le> 90
      then char_of (of_char c + 32 :: nat) else c)"

definition bool_token_spec :: "string \<Rightarrow> bool" where
  "bool_token_spec s = (map ascii_lower s \<in> set [''true'', ''false'', ''1'', ''0'', ''t'', ''f''])"

text \<open>
  The value of one token, as the body of the loop over the tokens computes it: the
  token is trimmed, an empty one counts as 0, any other is parsed.
\<close>

definition token_value :: "(string \<Rightarrow> error + int) \<Rightarrow> string \<Rightarrow> error + int" where
  "token_value parse part = (if TrimSpace part = [] then Inr 0 else parse (TrimSpace part))"

text \<open>The values of a signed integer type of \<open>w\<close> bits.\<close>

definition fits :: "nat \<Rightarrow> int \<Rightarrow> bool" where
  "fits w x = (- (2 ^ (w - 1)) \<le> x \<and> x < 2 ^ (w - 1))"

section \<open>The resolution of the raw string\<close>

lemma setValue_string:
  "setValue a \<lparr>CanSet = True, contents = VString old\<rparr> v
     = (\<lparr>CanSet = True, contents = VString v\<rparr>, None)"
  by (simp add: setValue_def)

text \<open>
  C1, as stated: both \<open>getEnvValue\<close> and \<open>Get\<close> return the variable's value if it is set
  and non-empty and the default otherwise. This fails for \<open>getEnvValue\<close>: with \<open>PORT\<close>
  set to the empty string and the default \<open>8080\<close> it returns the empty string, where
  the rule of the specification (and \<open>Get\<close>) gives \<open>8080\<close>.
\<close>

theorem getEnvValue_empty_value_counterexample:
  "getEnvValue [''PORT'' \<mapsto> ''''] ''PORT'' ''8080'' = ''''
   \<and> resolve_spec [''PORT'' \<mapsto> ''''] ''PORT'' ''8080'' = ''8080''
   \<and> Get [''PORT'' \<mapsto> ''''] ''PORT'' ''8080'' = ''8080''
   \<and> getEnvValue [''PORT'' \<mapsto> ''''] ''PORT'' ''8080''
       \<noteq> resolve_spec [''PORT'' \<mapsto> ''''] ''PORT'' ''8080''"
  by (simp add: getEnvValue_def LookupEnv_def resolve_spec_def Get_def Getenv_def)

text \<open>
  C1, amended: \<open>Get\<close> follows the rule of the specification. \<open>getEnvValue\<close>, which the
  struct-population path uses, returns the variable's value whenever the variable is
  set, also when the value is empty, and the default annotation only when the variable
  is not set; the two agree on every variable that is not set to the empty string.
  The string \<open>LoadStruct\<close> hands to \<open>setValue\<close> is the one \<open>getEnvValue\<close> returns: a
  settable string field with a variable name ends up holding exactly it.
\<close>

theorem resolution_rule_amended:
  "Get env name d = resolve_spec env name d
   \<and> getEnvValue env name d = (case env name of None \<Rightarrow> d | Some v \<Rightarrow> v)
   \<and> (env name \<noteq> Some [] \<longrightarrow> getEnvValue env name d = Get env name d)
   \<and> (Tag_Get t ''env'' \<noteq> [] \<longrightarrow>
        LoadStruct_fields a env [(t, \<lparr>CanSet = True, contents = VString old\<rparr>)]
          = ([(t, \<lparr>CanSet = True, contents =
                    VString (case env (Tag_Get t ''env'') of
                               None \<Rightarrow> Tag_Get t ''default''
                             | Some v \<Rightarrow> v)\<rparr>)], None))"
proof -
  have g: "Get env name d = resolve_spec env name d"
    by (simp add: Get_def Getenv_def resolve_spec_def split: option.splits)
  have e: "getEnvValue env name d = (case env name of None \<Rightarrow> d | Some v \<Rightarrow> v)" for name d
    by (simp add: getEnvValue_def LookupEnv_def split: option.splits)
  have agree: "env name \<noteq> Some [] \<longrightarrow> getEnvValue env name d = Get env name d"
    by (auto simp: e g resolve_spec_def split: option.splits)
  have ls: "Tag_Get t ''env'' \<noteq> [] \<longrightarrow>
        LoadStruct_fields a env [(t, \<lparr>CanSet = True, contents = VString old\<rparr>)]
          = ([(t, \<lparr>CanSet = True, contents =
                    VString (case env (Tag_Get t ''env'') of
                               None \<Rightarrow> Tag_Get t ''default''
                             | Some v \<Rightarrow> v)\<rparr>)], None)"
    by (simp add: setValue_string e)
  from g e agree ls show ?thesis by blast
qed

theorem resolution_rule_amended_witness:
  "[''HOST'' \<mapsto> ''example.org''] ''HOST'' \<noteq> Some []
   \<and> Tag_Get [(''env'', ''HOST''), (''default'', ''localhost'')] ''env'' \<noteq> []
   \<and> getEnvValue [''HOST'' \<mapsto> ''example.org''] ''HOST'' ''localhost'' = ''example.org''
   \<and> Get [''HOST'' \<mapsto> ''example.org''] ''HOST'' ''localhost'' = ''example.org''
   \<and> LoadStruct_fields Arch64 [''HOST'' \<mapsto> ''example.org'']
        [([(''env'', ''HOST''), (''default'', ''localhost'')],
          \<lparr>CanSet = True, contents = VString ''''\<rparr>)]
      = ([([(''env'', ''HOST''), (''default'', ''localhost'')],
           \<lparr>CanSet = True, contents = VString ''example.org''\<rparr>)], None)"
  using resolution_rule_amended
    [of "[''HOST'' \<mapsto> ''example.org'']" "''HOST''" "''localhost''"
        "[(''env'', ''HOST''), (''default'', ''localhost'')]" Arch64 "''''"]
  by (simp add: Tag_Get_def resolve_spec_def Get_def Getenv_def getEnvValue_def LookupEnv_def
      setValue_def)

section \<open>The loop over the fields\<close>

lemma setSliceOrArray_error_unchanged:
  "setSliceOrArray a isSlice es v = (es', Some e) \<Longrightarrow> es' = es"
  by (auto simp: setSliceOrArray_def Let_def split: if_splits sum.splits)

lemma setValue_error_unchanged:
  "setValue a f v = (f', Some e) \<Longrightarrow> f' = f"
  by (auto simp: setValue_def split: if_splits goval.splits sum.splits prod.splits
      dest: setSliceOrArray_error_unchanged)

lemma setValue_not_CanSet: "\<not> CanSet f \<Longrightarrow> setValue a f v = (f, None)"
  by (simp add: setValue_def)

lemma LoadStruct_fields_append:
  "LoadStruct_fields a env (xs @ ys) =
     (case LoadStruct_fields a env xs of
        (xs', Some e) \<Rightarrow> (xs' @ ys, Some e)
      | (xs', None) \<Rightarrow>
          (case LoadStruct_fields a env ys of (ys', r) \<Rightarrow> (xs' @ ys', r)))"
  by (induction xs) (auto simp: Let_def split: prod.splits option.splits)

lemma LoadStruct_fields_no_failure:
  "\<forall>tf \<in> set s. \<not> field_fails a env tf \<Longrightarrow>
     LoadStruct_fields a env s = (map (field_after a env) s, None)"
proof (induction s)
  case Nil
  then show ?case by simp
next
  case (Cons tf s)
  obtain t f where tf: "tf = (t, f)" by (cases tf)
  from Cons.prems have rest: "\<forall>tf \<in> set s. \<not> field_fails a env tf" by simp
  from Cons.prems tf have here:
    "Tag_Get t ''env'' \<noteq> [] \<Longrightarrow>
       snd (setValue a f (getEnvValue env (Tag_Get t ''env'') (Tag_Get t ''default''))) = None"
    by (simp add: field_fails_def)
  show ?case
  proof (cases "Tag_Get t ''env'' = []")
    case True
    then show ?thesis using Cons.IH [OF rest] by (simp add: tf field_after_def)
  next
    case False
    obtain f' where "setValue a f (getEnvValue env (Tag_Get t ''env'') (Tag_Get t ''default''))
        = (f', None)"
      using here [OF False] by (metis prod.collapse)
    then show ?thesis using False Cons.IH [OF rest] by (simp add: tf field_after_def)
  qed
qed

lemma LoadStruct_fields_first_failure:
  assumes pre: "\<forall>tf \<in> set pre. \<not> field_fails a env tf"
    and name: "Tag_Get t ''env'' \<noteq> []"
    and fails: "setValue a f (getEnvValue env (Tag_Get t ''env'') (Tag_Get t ''default''))
                  = (f', Some e)"
  shows "LoadStruct_fields a env (pre @ (t, f) # post)
           = (map (field_after a env) pre @ (t, f) # post, Some (EnvError (Tag_Get t ''env'') e))"
proof -
  from fails have "f' = f" by (rule setValue_error_unchanged)
  with name fails have "LoadStruct_fields a env ((t, f) # post)
      = ((t, f) # post, Some (EnvError (Tag_Get t ''env'') e))"
    by (simp add: Let_def)
  then show ?thesis
    by (simp add: LoadStruct_fields_append LoadStruct_fields_no_failure [OF pre])
qed

text \<open>
  C9. An argument that is not a pointer to a struct (the nil interface, a struct or any
  other value that is not a pointer, a nil pointer, a pointer to something that is not
  a struct) makes \<open>LoadStruct\<close> return its precondition error, whatever the environment
  holds, and the argument is as it was.
\<close>

theorem LoadStruct_rejects_bad_target:
  assumes "\<forall>s. c \<noteq> PointerTo (Struct s)"
  shows "LoadStruct a env c = (c, Some NotPointerToStruct)"
proof (cases c)
  case (PointerTo t)
  with assms show ?thesis by (cases t) (auto simp: LoadStruct_def)
qed (auto simp: LoadStruct_def split: cfg.splits target.splits)

theorem LoadStruct_rejects_bad_target_witness:
  "(\<forall>s. ByValue (Struct [([(''env'', ''TEST_NAME'')], \<lparr>CanSet = False, contents = VString ''''\<rparr>)])
          \<noteq> PointerTo (Struct s))
   \<and> LoadStruct Arch64 [''TEST_NAME'' \<mapsto> ''value'']
        (ByValue (Struct [([(''env'', ''TEST_NAME'')], \<lparr>CanSet = False, contents = VString ''''\<rparr>)]))
      = (ByValue (Struct [([(''env'', ''TEST_NAME'')], \<lparr>CanSet = False, contents = VString ''''\<rparr>)]),
         Some NotPointerToStruct)
   \<and> (\<forall>s. PointerTo (NonStruct reflect_String) \<noteq> PointerTo (Struct s))
   \<and> LoadStruct Arch64 Map.empty (PointerTo (NonStruct reflect_String))
      = (PointerTo (NonStruct reflect_String), Some NotPointerToStruct)
   \<and> (\<forall>s. NilPointer \<noteq> PointerTo (Struct s))
   \<and> LoadStruct Arch64 Map.empty NilPointer = (NilPointer, Some NotPointerToStruct)
   \<and> (\<forall>s. NilInterface \<noteq> PointerTo (Struct s))
   \<and> LoadStruct Arch64 Map.empty NilInterface = (NilInterface, Some NotPointerToStruct)"
proof -
  let ?c = "ByValue (Struct [([(''env'', ''TEST_NAME'')], \<lparr>CanSet = False, contents = VString ''''\<rparr>)])"
  have h: "\<forall>s. ?c \<noteq> PointerTo (Struct s)" by simp
  have h2: "\<forall>s. PointerTo (NonStruct reflect_String) \<noteq> PointerTo (Struct s)" by simp
  have h3: "\<forall>s. NilPointer \<noteq> PointerTo (Struct s)" by simp
  have h4: "\<forall>s. NilInterface \<noteq> PointerTo (Struct s)" by simp
  from h LoadStruct_rejects_bad_target [OF h, of Arch64 "[''TEST_NAME'' \<mapsto> ''value'']"]
    h2 LoadStruct_rejects_bad_target [OF h2, of Arch64 Map.empty]
    h3 LoadStruct_rejects_bad_target [OF h3, of Arch64 Map.empty]
    h4 LoadStruct_rejects_bad_target [OF h4, of Arch64 Map.empty]
  show ?thesis by (intro conjI)
qed

text \<open>
  C10. On a field that cannot be set (an unexported field) \<open>setValue\<close> returns no error
  and leaves the field as it is, whatever the raw string. So the loop of \<open>LoadStruct\<close>
  passes over such a field, with or without a variable name: the result is that of the
  fields before it followed by that of the fields after it, with the field unchanged
  in between and no error from it.
\<close>

theorem unsettable_field_is_skipped:
  assumes "\<not> CanSet f"
  shows "setValue a f v = (f, None)
       \<and> LoadStruct_fields a env (pre @ (t, f) # post) =
           (case LoadStruct_fields a env pre of
              (pre', Some e) \<Rightarrow> (pre' @ (t, f) # post, Some e)
            | (pre', None) \<Rightarrow>
                (case LoadStruct_fields a env post of
                   (post', r) \<Rightarrow> (pre' @ (t, f) # post', r)))"
  using assms
  by (auto simp: setValue_not_CanSet LoadStruct_fields_append Let_def
      split: prod.splits option.splits)

theorem unsettable_field_is_skipped_witness:
  "\<not> CanSet \<lparr>CanSet = False, contents = VInt 5\<rparr>
   \<and> setValue Arch64 \<lparr>CanSet = False, contents = VInt 5\<rparr> ''not_a_number''
       = (\<lparr>CanSet = False, contents = VInt 5\<rparr>, None)
   \<and> LoadStruct_fields Arch64 [''PORT'' \<mapsto> ''not_a_number'']
        [([(''env'', ''PORT'')], \<lparr>CanSet = False, contents = VInt 5\<rparr>)]
       = ([([(''env'', ''PORT'')], \<lparr>CanSet = False, contents = VInt 5\<rparr>)], None)"
proof -
  have h: "\<not> CanSet \<lparr>CanSet = False, contents = VInt 5\<rparr>" by simp
  from unsettable_field_is_skipped [OF h, of Arch64 "''not_a_number''"
      "[''PORT'' \<mapsto> ''not_a_number'']" "[]" "[(''env'', ''PORT'')]" "[]"]
  have "setValue Arch64 \<lparr>CanSet = False, contents = VInt 5\<rparr> ''not_a_number''
       = (\<lparr>CanSet = False, contents = VInt 5\<rparr>, None)
   \<and> LoadStruct_fields Arch64 [''PORT'' \<mapsto> ''not_a_number'']
        [([(''env'', ''PORT'')], \<lparr>CanSet = False, contents = VInt 5\<rparr>)]
       = ([([(''env'', ''PORT'')], \<lparr>CanSet = False, contents = VInt 5\<rparr>)], None)"
    by simp
  with h show ?thesis by blast
qed

section \<open>The standalone accessors\<close>

text \<open>
  C3. No standalone accessor has an error result: each returns a value of its type.
  If the variable is not set or is set to the empty string, and for the typed
  accessors also if its value does not parse, the accessor returns the caller's default.
\<close>

theorem accessors_return_default:
  "(env K = None \<or> env K = Some [] \<longrightarrow> Get env K D = D)
   \<and> (env K = None \<or> env K = Some [] \<or> (\<exists>v e. env K = Some v \<and> ParseBool v = Inl e)
        \<longrightarrow> GetBool env K Db = Db)
   \<and> (env K = None \<or> env K = Some [] \<or> (\<exists>v e. env K = Some v \<and> Atoi a v = Inl e)
        \<longrightarrow> GetInt a env K Di = Di)
   \<and> (env K = None \<or> env K = Some [] \<or> (\<exists>v e. env K = Some v \<and> ParseInt a v 64 = Inl e)
        \<longrightarrow> GetInt64 a env K Dj = Dj)
   \<and> (env K = None \<or> env K = Some [] \<or> (\<exists>v e. env K = Some v \<and> parseIntSlice a v = Inl e)
        \<longrightarrow> GetIntSlice a env K Ds = Ds)
   \<and> (env K = None \<or> env K = Some [] \<or> (\<exists>v e. env K = Some v \<and> parseInt64Slice a v = Inl e)
        \<longrightarrow> GetInt64Slice a env K Dt = Dt)"
proof -
  have 1: "env K = None \<or> env K = Some [] \<longrightarrow> Get env K D = D"
    by (auto simp: Get_def Getenv_def)
  have 2: "env K = None \<or> env K = Some [] \<or> (\<exists>v e. env K = Some v \<and> ParseBool v = Inl e)
        \<longrightarrow> GetBool env K Db = Db"
    by (auto simp: GetBool_def Get_def Getenv_def Let_def split: sum.splits)
  have 3: "env K = None \<or> env K = Some [] \<or> (\<exists>v e. env K = Some v \<and> Atoi a v = Inl e)
        \<longrightarrow> GetInt a env K Di = Di"
    by (auto simp: GetInt_def Getenv_def)
  have 4: "env K = None \<or> env K = Some [] \<or> (\<exists>v e. env K = Some v \<and> ParseInt a v 64 = Inl e)
        \<longrightarrow> GetInt64 a env K Dj = Dj"
    by (auto simp: GetInt64_def Getenv_def)
  have 5: "env K = None \<or> env K = Some [] \<or> (\<exists>v e. env K = Some v \<and> parseIntSlice a v = Inl e)
        \<longrightarrow> GetIntSlice a env K Ds = Ds"
    by (auto simp: GetIntSlice_def Getenv_def)
  have 6: "env K = None \<or> env K = Some [] \<or> (\<exists>v e. env K = Some v \<and> parseInt64Slice a v = Inl e)
        \<longrightarrow> GetInt64Slice a env K Dt = Dt"
    by (auto simp: GetInt64Slice_def Getenv_def)
  from 1 2 3 4 5 6 show ?thesis by blast
qed

theorem accessors_return_default_witness:
  "(Map.empty ''K'' = (None :: string option)
    \<and> Get Map.empty ''K'' ''default'' = ''default''
    \<and> GetBool Map.empty ''K'' True = True
    \<and> GetInt Arch64 Map.empty ''K'' 8080 = 8080
    \<and> GetInt64 Arch64 Map.empty ''K'' 1024 = 1024
    \<and> GetIntSlice Arch64 Map.empty ''K'' [3000, 3001] = [3000, 3001]
    \<and> GetInt64Slice Arch64 Map.empty ''K'' [512, 1024] = [512, 1024])
   \<and> ([''K'' \<mapsto> ''''] ''K'' = Some []
    \<and> Get [''K'' \<mapsto> ''''] ''K'' ''default'' = ''default''
    \<and> GetBool [''K'' \<mapsto> ''''] ''K'' True = True
    \<and> GetInt Arch64 [''K'' \<mapsto> ''''] ''K'' 8080 = 8080
    \<and> GetInt64 Arch64 [''K'' \<mapsto> ''''] ''K'' 1024 = 1024
    \<and> GetIntSlice Arch64 [''K'' \<mapsto> ''''] ''K'' [3000, 3001] = [3000, 3001]
    \<and> GetInt64Slice Arch64 [''K'' \<mapsto> ''''] ''K'' [512, 1024] = [512, 1024])
   \<and> ([''K'' \<mapsto> ''8080,not_a_number,8082''] ''K'' = Some ''8080,not_a_number,8082''
    \<and> ParseBool ''8080,not_a_number,8082''
        = Inl (NumError ''ParseBool'' ''8080,not_a_number,8082'' ErrSyntax)
    \<and> Atoi Arch64 ''8080,not_a_number,8082''
        = Inl (NumError ''Atoi'' ''8080,not_a_number,8082'' ErrSyntax)
    \<and> ParseInt Arch64 ''8080,not_a_number,8082'' 64
        = Inl (NumError ''ParseInt'' ''8080,not_a_number,8082'' ErrSyntax)
    \<and> parseIntSlice Arch64 ''8080,not_a_number,8082''
        = Inl (InvalidIntAt 1 (NumError ''Atoi'' ''not_a_number'' ErrSyntax))
    \<and> parseInt64Slice Arch64 ''8080,not_a_number,8082''
        = Inl (InvalidInt64At 1 (NumError ''ParseInt'' ''not_a_number'' ErrSyntax))
    \<and> GetBool [''K'' \<mapsto> ''8080,not_a_number,8082''] ''K'' True = True
    \<and> GetInt Arch64 [''K'' \<mapsto> ''8080,not_a_number,8082''] ''K'' 8080 = 8080
    \<and> GetInt64 Arch64 [''K'' \<mapsto> ''8080,not_a_number,8082''] ''K'' 1024 = 1024
    \<and> GetIntSlice Arch64 [''K'' \<mapsto> ''8080,not_a_number,8082''] ''K'' [3000, 3001] = [3000, 3001]
    \<and> GetInt64Slice Arch64 [''K'' \<mapsto> ''8080,not_a_number,8082''] ''K'' [512, 1024] = [512, 1024])"
proof -
  let ?v = "''8080,not_a_number,8082''"
  have unset: "Map.empty ''K'' = (None :: string option)" by simp
  have empty: "[''K'' \<mapsto> ''''] ''K'' = Some []" by simp
  have set: "[''K'' \<mapsto> ?v] ''K'' = Some ?v" by simp
  have pb: "ParseBool ?v = Inl (NumError ''ParseBool'' ?v ErrSyntax)" by code_simp
  have pa: "Atoi Arch64 ?v = Inl (NumError ''Atoi'' ?v ErrSyntax)" by code_simp
  have pi: "ParseInt Arch64 ?v 64 = Inl (NumError ''ParseInt'' ?v ErrSyntax)" by code_simp
  have ps: "parseIntSlice Arch64 ?v = Inl (InvalidIntAt 1 (NumError ''Atoi'' ''not_a_number'' ErrSyntax))"
    by code_simp
  have pt: "parseInt64Slice Arch64 ?v
      = Inl (InvalidInt64At 1 (NumError ''ParseInt'' ''not_a_number'' ErrSyntax))"
    by code_simp
  note A = accessors_return_default [of Map.empty "''K''" "''default''" True Arch64 8080 1024
      "[3000, 3001]" "[512, 1024]"]
  note B = accessors_return_default [of "[''K'' \<mapsto> '''']" "''K''" "''default''" True Arch64
      8080 1024 "[3000, 3001]" "[512, 1024]"]
  note C = accessors_return_default [of "[''K'' \<mapsto> ?v]" "''K''" "''default''" True Arch64
      8080 1024 "[3000, 3001]" "[512, 1024]"]
  from A unset have a: "Get Map.empty ''K'' ''default'' = ''default''
    \<and> GetBool Map.empty ''K'' True = True
    \<and> GetInt Arch64 Map.empty ''K'' 8080 = 8080
    \<and> GetInt64 Arch64 Map.empty ''K'' 1024 = 1024
    \<and> GetIntSlice Arch64 Map.empty ''K'' [3000, 3001] = [3000, 3001]
    \<and> GetInt64Slice Arch64 Map.empty ''K'' [512, 1024] = [512, 1024]"
    by blast
  from B empty have b: "Get [''K'' \<mapsto> ''''] ''K'' ''default'' = ''default''
    \<and> GetBool [''K'' \<mapsto> ''''] ''K'' True = True
    \<and> GetInt Arch64 [''K'' \<mapsto> ''''] ''K'' 8080 = 8080
    \<and> GetInt64 Arch64 [''K'' \<mapsto> ''''] ''K'' 1024 = 1024
    \<and> GetIntSlice Arch64 [''K'' \<mapsto> ''''] ''K'' [3000, 3001] = [3000, 3001]
    \<and> GetInt64Slice Arch64 [''K'' \<mapsto> ''''] ''K'' [512, 1024] = [512, 1024]"
    by blast
  from C set pb pa pi ps pt have c: "GetBool [''K'' \<mapsto> ?v] ''K'' True = True
    \<and> GetInt Arch64 [''K'' \<mapsto> ?v] ''K'' 8080 = 8080
    \<and> GetInt64 Arch64 [''K'' \<mapsto> ?v] ''K'' 1024 = 1024
    \<and> GetIntSlice Arch64 [''K'' \<mapsto> ?v] ''K'' [3000, 3001] = [3000, 3001]
    \<and> GetInt64Slice Arch64 [''K'' \<mapsto> ?v] ''K'' [512, 1024] = [512, 1024]"
    by blast
  from unset empty set pb pa pi ps pt a b c show ?thesis by blast
qed


section \<open>Booleans\<close>

lemma tokens_disjoint: "s \<in> true_tokens \<Longrightarrow> s \<notin> false_tokens"
  by (auto simp: true_tokens_def false_tokens_def)

lemma empty_not_token: "[] \<notin> true_tokens \<and> [] \<notin> false_tokens"
  by (simp add: true_tokens_def false_tokens_def)

lemma ParseBool_Inr_iff: "(\<exists>b. ParseBool s = Inr b) \<longleftrightarrow> s \<in> true_tokens \<union> false_tokens"
  by (auto simp: ParseBool_def)

lemma ParseBool_True_iff: "ParseBool s = Inr True \<longleftrightarrow> s \<in> true_tokens"
  by (simp add: ParseBool_def)

lemma ParseBool_False_iff: "ParseBool s = Inr False \<longleftrightarrow> s \<in> false_tokens"
  using tokens_disjoint [of s] by (auto simp: ParseBool_def)

lemma ParseBool_other:
  "s \<notin> true_tokens \<union> false_tokens \<Longrightarrow> ParseBool s = Inl (NumError ''ParseBool'' s ErrSyntax)"
  by (simp add: ParseBool_def)

lemma ParseBool_Inr_nonempty: "ParseBool s = Inr b \<Longrightarrow> s \<noteq> []"
  using empty_not_token by (auto simp: ParseBool_def split: if_splits)

text \<open>
  C4, as stated: every case variant of true, false, t and f is accepted. This fails:
  \<open>tRUE\<close> differs from \<open>true\<close> in case only, and \<open>strconv.ParseBool\<close> rejects it, so
  \<open>setValue\<close> returns a syntax error for it and \<open>GetBool\<close> returns the default.
\<close>

theorem mixed_case_bool_counterexample:
  "bool_token_spec ''tRUE''
   \<and> ParseBool ''tRUE'' = Inl (NumError ''ParseBool'' ''tRUE'' ErrSyntax)
   \<and> setValue Arch64 \<lparr>CanSet = True, contents = VBool False\<rparr> ''tRUE''
       = (\<lparr>CanSet = True, contents = VBool False\<rparr>,
          Some (NumError ''ParseBool'' ''tRUE'' ErrSyntax))
   \<and> GetBool [''DEBUG'' \<mapsto> ''tRUE''] ''DEBUG'' True = True"
proof -
  have 1: "bool_token_spec ''tRUE''" by code_simp
  have 2: "ParseBool ''tRUE'' = Inl (NumError ''ParseBool'' ''tRUE'' ErrSyntax)"
    by (simp add: ParseBool_def true_tokens_def false_tokens_def)
  have 3: "setValue Arch64 \<lparr>CanSet = True, contents = VBool False\<rparr> ''tRUE''
       = (\<lparr>CanSet = True, contents = VBool False\<rparr>,
          Some (NumError ''ParseBool'' ''tRUE'' ErrSyntax))"
    by (simp add: setValue_def 2)
  have 4: "GetBool [''DEBUG'' \<mapsto> ''tRUE''] ''DEBUG'' True = True"
    by (simp add: GetBool_def Get_def Getenv_def 2)
  from 1 2 3 4 show ?thesis by blast
qed

text \<open>
  C4, amended: boolean parsing accepts exactly twelve tokens, \<open>1 t T true TRUE True\<close>
  for true and \<open>0 f F false FALSE False\<close> for false; of the case variants of \<open>true\<close>
  and \<open>false\<close> these are the lower-case, the upper-case and the capitalised one only.
  On the struct-field path the empty raw string gives \<open>false\<close> and any other string
  that is not one of the twelve is a parse failure that leaves the field as it was.
  \<open>GetBool\<close> returns the caller's default for a variable that is not set, is empty or
  holds any other string, and the token's value otherwise.
\<close>

theorem bool_tokens_amended:
  "true_tokens = {''1'', ''t'', ''T'', ''true'', ''TRUE'', ''True''}
   \<and> false_tokens = {''0'', ''f'', ''F'', ''false'', ''FALSE'', ''False''}
   \<and> ((\<exists>b. ParseBool s = Inr b) \<longleftrightarrow> s \<in> true_tokens \<union> false_tokens)
   \<and> (ParseBool s = Inr True \<longleftrightarrow> s \<in> true_tokens)
   \<and> (ParseBool s = Inr False \<longleftrightarrow> s \<in> false_tokens)
   \<and> setValue a \<lparr>CanSet = True, contents = VBool old\<rparr> []
       = (\<lparr>CanSet = True, contents = VBool False\<rparr>, None)
   \<and> (s \<noteq> [] \<and> s \<notin> true_tokens \<union> false_tokens \<longrightarrow>
        setValue a \<lparr>CanSet = True, contents = VBool old\<rparr> s
          = (\<lparr>CanSet = True, contents = VBool old\<rparr>,
             Some (NumError ''ParseBool'' s ErrSyntax)))
   \<and> (ParseBool s = Inr b \<longrightarrow>
        setValue a \<lparr>CanSet = True, contents = VBool old\<rparr> s
          = (\<lparr>CanSet = True, contents = VBool b\<rparr>, None))
   \<and> (env K = None \<or> env K = Some [] \<or> (env K = Some s \<and> s \<notin> true_tokens \<union> false_tokens)
        \<longrightarrow> GetBool env K d = d)
   \<and> (env K = Some s \<and> ParseBool s = Inr b \<longrightarrow> GetBool env K d = b)"
proof -
  have 4: "setValue a \<lparr>CanSet = True, contents = VBool old\<rparr> []
       = (\<lparr>CanSet = True, contents = VBool False\<rparr>, None)"
    by (simp add: setValue_def)
  have 5: "s \<noteq> [] \<and> s \<notin> true_tokens \<union> false_tokens \<longrightarrow>
        setValue a \<lparr>CanSet = True, contents = VBool old\<rparr> s
          = (\<lparr>CanSet = True, contents = VBool old\<rparr>,
             Some (NumError ''ParseBool'' s ErrSyntax))"
    by (simp add: setValue_def ParseBool_other)
  have 6: "ParseBool s = Inr b \<longrightarrow>
        setValue a \<lparr>CanSet = True, contents = VBool old\<rparr> s
          = (\<lparr>CanSet = True, contents = VBool b\<rparr>, None)"
    using ParseBool_Inr_nonempty [of s b] by (auto simp: setValue_def)
  have 7: "env K = None \<or> env K = Some [] \<or> (env K = Some s \<and> s \<notin> true_tokens \<union> false_tokens)
        \<longrightarrow> GetBool env K d = d"
    using ParseBool_other [of s]
    by (auto simp: GetBool_def Get_def Getenv_def Let_def split: sum.splits)
  have 8: "env K = Some s \<and> ParseBool s = Inr b \<longrightarrow> GetBool env K d = b"
    using ParseBool_Inr_nonempty [of s b]
    by (auto simp: GetBool_def Get_def Getenv_def Let_def split: sum.splits)
  from true_tokens_def false_tokens_def ParseBool_Inr_iff [of s] ParseBool_True_iff [of s]
    ParseBool_False_iff [of s] 4 5 6 7 8
  show ?thesis by (intro conjI)
qed

theorem bool_tokens_amended_witness:
  "ParseBool ''TRUE'' = Inr True
   \<and> [''DEBUG'' \<mapsto> ''TRUE''] ''DEBUG'' = Some ''TRUE''
   \<and> setValue Arch64 \<lparr>CanSet = True, contents = VBool False\<rparr> ''TRUE''
       = (\<lparr>CanSet = True, contents = VBool True\<rparr>, None)
   \<and> GetBool [''DEBUG'' \<mapsto> ''TRUE''] ''DEBUG'' False = True
   \<and> ''yes'' \<noteq> []
   \<and> ''yes'' \<notin> true_tokens \<union> false_tokens
   \<and> [''DEBUG'' \<mapsto> ''yes''] ''DEBUG'' = Some ''yes''
   \<and> setValue Arch64 \<lparr>CanSet = True, contents = VBool True\<rparr> ''yes''
       = (\<lparr>CanSet = True, contents = VBool True\<rparr>, Some (NumError ''ParseBool'' ''yes'' ErrSyntax))
   \<and> GetBool [''DEBUG'' \<mapsto> ''yes''] ''DEBUG'' True = True"
proof -
  have t: "ParseBool ''TRUE'' = Inr True"
    by (simp add: ParseBool_def true_tokens_def)
  have e1: "[''DEBUG'' \<mapsto> ''TRUE''] ''DEBUG'' = Some ''TRUE''" by simp
  have y1: "''yes'' \<noteq> []" by simp
  have y2: "''yes'' \<notin> true_tokens \<union> false_tokens"
    by (simp add: true_tokens_def false_tokens_def)
  have e2: "[''DEBUG'' \<mapsto> ''yes''] ''DEBUG'' = Some ''yes''" by simp
  note A = bool_tokens_amended [where s = "''TRUE''" and a = Arch64 and old = False
      and env = "[''DEBUG'' \<mapsto> ''TRUE'']" and K = "''DEBUG''" and b = True and d = False]
  note B = bool_tokens_amended [where s = "''yes''" and a = Arch64 and old = True
      and env = "[''DEBUG'' \<mapsto> ''yes'']" and K = "''DEBUG''" and b = True and d = True]
  from A t e1 have a: "setValue Arch64 \<lparr>CanSet = True, contents = VBool False\<rparr> ''TRUE''
       = (\<lparr>CanSet = True, contents = VBool True\<rparr>, None)
     \<and> GetBool [''DEBUG'' \<mapsto> ''TRUE''] ''DEBUG'' False = True"
    by blast
  from B y1 y2 e2 have b: "setValue Arch64 \<lparr>CanSet = True, contents = VBool True\<rparr> ''yes''
       = (\<lparr>CanSet = True, contents = VBool True\<rparr>, Some (NumError ''ParseBool'' ''yes'' ErrSyntax))
     \<and> GetBool [''DEBUG'' \<mapsto> ''yes''] ''DEBUG'' True = True"
    by blast
  from t e1 y1 y2 e2 a b show ?thesis by (intro conjI) blast+
qed

section \<open>Collections\<close>

lemma to_signed_0: "to_signed (IntSize a) 0 = 0"
  by (cases a) (simp_all add: to_signed_def)

lemma fold_zero_IntElems:
  "n \<le> length xs \<Longrightarrow>
     fold (\<lambda>i es'. Index_SetInt a es' i 0) [0..<n] (IntElems xs)
       = IntElems (replicate n 0 @ drop n xs)"
proof (induction n)
  case 0
  then show ?case by simp
next
  case (Suc n)
  then have n: "n < length xs" by simp
  from n have d: "drop n xs = xs ! n # drop (Suc n) xs"
    by (simp add: Cons_nth_drop_Suc)
  have "(replicate n 0 @ drop n xs)[n := 0] = replicate (Suc n) 0 @ drop (Suc n) xs"
    unfolding d by (simp add: list_update_append replicate_app_Cons_same)
  with Suc n show ?case by (simp add: to_signed_0)
qed

lemma fold_zero_Int64Elems:
  "n \<le> length xs \<Longrightarrow>
     fold (\<lambda>i es'. Index_SetInt a es' i 0) [0..<n] (Int64Elems xs)
       = Int64Elems (replicate n 0 @ drop n xs)"
proof (induction n)
  case 0
  then show ?case by simp
next
  case (Suc n)
  then have n: "n < length xs" by simp
  from n have d: "drop n xs = xs ! n # drop (Suc n) xs"
    by (simp add: Cons_nth_drop_Suc)
  have "(replicate n 0 @ drop n xs)[n := 0] = replicate (Suc n) 0 @ drop (Suc n) xs"
    unfolding d by (simp add: list_update_append replicate_app_Cons_same)
  with Suc n show ?case by simp
qed

lemma fold_write_IntElems:
  "k + length ys \<le> length xs \<Longrightarrow>
     fold (\<lambda>(i, x) es'. Index_SetInt a es' i x) (enumerate k ys) (IntElems xs)
       = IntElems (take k xs @ map (to_signed (IntSize a)) ys @ drop (k + length ys) xs)"
proof (induction ys arbitrary: k xs)
  case Nil
  then show ?case by simp
next
  case (Cons y ys)
  then have k: "k < length xs" by simp
  from Cons.prems have "Suc k + length ys \<le> length (xs[k := to_signed (IntSize a) y])" by simp
  from Cons.IH [OF this] k show ?case
    by (simp add: take_Suc_conv_app_nth)
qed

lemma fold_write_Int64Elems:
  "k + length ys \<le> length xs \<Longrightarrow>
     fold (\<lambda>(i, x) es'. Index_SetInt a es' i x) (enumerate k ys) (Int64Elems xs)
       = Int64Elems (take k xs @ ys @ drop (k + length ys) xs)"
proof (induction ys arbitrary: k xs)
  case Nil
  then show ?case by simp
next
  case (Cons y ys)
  then have k: "k < length xs" by simp
  from Cons.prems have "Suc k + length ys \<le> length (xs[k := y])" by simp
  from Cons.IH [OF this] k show ?case
    by (simp add: take_Suc_conv_app_nth)
qed

lemma range_parts_length:
  "range_parts parse wrap i parts acc = Inr xs \<Longrightarrow> length xs = length acc + length parts"
  by (induction parts arbitrary: i acc) (auto simp: Let_def split: if_splits sum.splits)

lemma range_parts_error:
  "range_parts parse wrap i parts acc = Inl e \<Longrightarrow> \<exists>j err. e = wrap j err"
  by (induction parts arbitrary: i acc) (auto simp: Let_def split: if_splits sum.splits)

lemma range_parts_ok:
  "list_all2 (\<lambda>p x. token_value parse p = Inr x) parts xs \<Longrightarrow>
     range_parts parse wrap i parts acc = Inr (acc @ xs)"
proof (induction parts arbitrary: i acc xs)
  case Nil
  then show ?case by simp
next
  case (Cons p parts)
  then obtain x xs' where xs: "xs = x # xs'" and x: "token_value parse p = Inr x"
    and rest: "list_all2 (\<lambda>p x. token_value parse p = Inr x) parts xs'"
    by (auto simp: list_all2_Cons1)
  from x Cons.IH [OF rest] show ?case
    by (auto simp: xs token_value_def Let_def split: if_splits)
qed

lemma range_parts_fail:
  assumes "list_all2 (\<lambda>p x. token_value parse p = Inr x) ps xs"
    and "token_value parse q = Inl e"
  shows "range_parts parse wrap i (ps @ q # rest) acc = Inl (wrap (i + length ps) e)"
  using assms
proof (induction ps arbitrary: i acc xs)
  case Nil
  then show ?case by (auto simp: token_value_def Let_def split: if_splits)
next
  case (Cons p ps)
  then obtain x xs' where xs: "xs = x # xs'" and x: "token_value parse p = Inr x"
    and rest: "list_all2 (\<lambda>p x. token_value parse p = Inr x) ps xs'"
    by (auto simp: list_all2_Cons1)
  from x Cons.IH [OF rest Cons.prems(2)] show ?case
    by (auto simp: token_value_def Let_def split: if_splits)
qed

lemma Split_not_Nil: "Split v sep \<noteq> []"
  by (induction v) (auto split: list.splits)

lemma Split_no_sep: "p \<in> set (Split v sep) \<Longrightarrow> sep \<notin> set p"
  by (induction v arbitrary: p) (auto split: list.splits if_splits)

lemma Join_Cons: "ps \<noteq> [] \<Longrightarrow> Join (p # ps) sep = p @ sep @ Join ps sep"
  by (cases ps) simp_all

lemma Join_Split: "Join (Split v sep) [sep] = v"
proof (induction v)
  case Nil
  then show ?case by simp
next
  case (Cons c v)
  show ?case
  proof (cases "c = sep")
    case True
    with Cons show ?thesis by (simp add: Join_Cons Split_not_Nil)
  next
    case False
    obtain t ts where s: "Split v sep = t # ts"
      using Split_not_Nil [of v sep] by (cases "Split v sep") auto
    with Cons False show ?thesis by (cases ts) simp_all
  qed
qed

lemma setSliceOrArray_slice_IntElems:
  assumes "v \<noteq> []"
    and "range_parts (\<lambda>part. ParseInt a part 64) InvalidIntAt 0 (Split v (CHR '','')) [] = Inr ys"
  shows "setSliceOrArray a True (IntElems xs) v = (IntElems (map (to_signed (IntSize a)) ys), None)"
  using assms fold_write_IntElems [of 0 ys "replicate (length ys) 0" a]
  by (simp add: setSliceOrArray_def)

lemma setSliceOrArray_slice_Int64Elems:
  assumes "v \<noteq> []"
    and "range_parts (\<lambda>part. ParseInt a part 64) InvalidIntAt 0 (Split v (CHR '','')) [] = Inr ys"
  shows "setSliceOrArray a True (Int64Elems xs) v = (Int64Elems ys, None)"
  using assms fold_write_Int64Elems [of 0 ys "replicate (length ys) 0" a]
  by (simp add: setSliceOrArray_def)

lemma setSliceOrArray_array_IntElems:
  assumes "v \<noteq> []" and "length (Split v (CHR '','')) = length xs"
    and "range_parts (\<lambda>part. ParseInt a part 64) InvalidIntAt 0 (Split v (CHR '','')) [] = Inr ys"
  shows "setSliceOrArray a False (IntElems xs) v = (IntElems (map (to_signed (IntSize a)) ys), None)"
proof -
  from assms(2,3) have "length ys = length xs"
    by (auto dest: range_parts_length)
  with assms fold_write_IntElems [of 0 ys xs a] show ?thesis
    by (simp add: setSliceOrArray_def)
qed

lemma setSliceOrArray_array_Int64Elems:
  assumes "v \<noteq> []" and "length (Split v (CHR '','')) = length xs"
    and "range_parts (\<lambda>part. ParseInt a part 64) InvalidIntAt 0 (Split v (CHR '','')) [] = Inr ys"
  shows "setSliceOrArray a False (Int64Elems xs) v = (Int64Elems ys, None)"
proof -
  from assms(2,3) have "length ys = length xs"
    by (auto dest: range_parts_length)
  with assms fold_write_Int64Elems [of 0 ys xs a] show ?thesis
    by (simp add: setSliceOrArray_def)
qed

lemma setSliceOrArray_token_error:
  assumes "v \<noteq> []" and "elemKind es = reflect_Int \<or> elemKind es = reflect_Int64"
    and "isSlice \<or> length (Split v (CHR '','')) = Len es"
    and "range_parts (\<lambda>part. ParseInt a part 64) InvalidIntAt 0 (Split v (CHR '','')) [] = Inl e"
  shows "setSliceOrArray a isSlice es v = (es, Some e)"
  using assms by (auto simp: setSliceOrArray_def)

text \<open>
  C6. For a slice or an array of \<open>int\<close> or \<open>int64\<close>, the empty raw string is no error:
  a slice becomes the empty slice, an array of \<open>N\<close> elements becomes \<open>N\<close> zeros. The
  same holds through \<open>setValue\<close> for a field that can be set.
\<close>

theorem empty_raw_collection:
  "setSliceOrArray a True (IntElems xs) [] = (IntElems [], None)
   \<and> setSliceOrArray a True (Int64Elems xs) [] = (Int64Elems [], None)
   \<and> setSliceOrArray a False (IntElems xs) [] = (IntElems (replicate (length xs) 0), None)
   \<and> setSliceOrArray a False (Int64Elems xs) [] = (Int64Elems (replicate (length xs) 0), None)
   \<and> setValue a \<lparr>CanSet = True, contents = VSlice (IntElems xs)\<rparr> []
       = (\<lparr>CanSet = True, contents = VSlice (IntElems [])\<rparr>, None)
   \<and> setValue a \<lparr>CanSet = True, contents = VSlice (Int64Elems xs)\<rparr> []
       = (\<lparr>CanSet = True, contents = VSlice (Int64Elems [])\<rparr>, None)
   \<and> setValue a \<lparr>CanSet = True, contents = VArray (IntElems xs)\<rparr> []
       = (\<lparr>CanSet = True, contents = VArray (IntElems (replicate (length xs) 0))\<rparr>, None)
   \<and> setValue a \<lparr>CanSet = True, contents = VArray (Int64Elems xs)\<rparr> []
       = (\<lparr>CanSet = True, contents = VArray (Int64Elems (replicate (length xs) 0))\<rparr>, None)"
proof -
  have 1: "setSliceOrArray a True (IntElems xs) [] = (IntElems [], None)"
    by (simp add: setSliceOrArray_def)
  have 2: "setSliceOrArray a True (Int64Elems xs) [] = (Int64Elems [], None)"
    by (simp add: setSliceOrArray_def)
  have 3: "setSliceOrArray a False (IntElems xs) [] = (IntElems (replicate (length xs) 0), None)"
    by (simp add: setSliceOrArray_def fold_zero_IntElems)
  have 4: "setSliceOrArray a False (Int64Elems xs) [] = (Int64Elems (replicate (length xs) 0), None)"
    by (simp add: setSliceOrArray_def fold_zero_Int64Elems)
  show ?thesis
    by (simp add: setValue_def 1 2 3 4)
qed

theorem empty_raw_collection_witness:
  "setSliceOrArray Arch64 True (IntElems [8080, 8081]) [] = (IntElems [], None)
   \<and> setSliceOrArray Arch64 False (IntElems [7, 8, 9]) [] = (IntElems [0, 0, 0], None)
   \<and> setValue Arch64 \<lparr>CanSet = True, contents = VArray (Int64Elems [7, 8, 9])\<rparr> []
       = (\<lparr>CanSet = True, contents = VArray (Int64Elems [0, 0, 0])\<rparr>, None)"
  using empty_raw_collection [of Arch64 "[8080, 8081]"] empty_raw_collection [of Arch64 "[7, 8, 9]"]
  by (simp add: numeral_3_eq_3)

text \<open>
  C5. For an array of \<open>int\<close> or \<open>int64\<close> of length \<open>N\<close> and a non-empty raw string:
  if the number of comma-separated tokens is not \<open>N\<close>, the result is the error that
  reports the number of tokens and \<open>N\<close>, and the array is as it was; so a call that
  succeeds had exactly \<open>N\<close> tokens. With \<open>N\<close> tokens the error, if any, is never the
  length mismatch (it is that of a token, see C7).
\<close>

theorem array_length_must_match:
  assumes "v \<noteq> []" and "elemKind es = reflect_Int \<or> elemKind es = reflect_Int64"
  shows "(length (Split v (CHR '','')) \<noteq> Len es \<longrightarrow>
            setSliceOrArray a False es v
              = (es, Some (ArrayLengthMismatch (length (Split v (CHR '',''))) (Len es))))
       \<and> (snd (setSliceOrArray a False es v) = None \<longrightarrow> length (Split v (CHR '','')) = Len es)
       \<and> (length (Split v (CHR '','')) = Len es \<longrightarrow>
            (\<forall>n m. snd (setSliceOrArray a False es v) \<noteq> Some (ArrayLengthMismatch n m)))"
proof -
  have 1: "length (Split v (CHR '','')) \<noteq> Len es \<longrightarrow>
            setSliceOrArray a False es v
              = (es, Some (ArrayLengthMismatch (length (Split v (CHR '',''))) (Len es)))"
    using assms by (auto simp: setSliceOrArray_def)
  then have 2: "snd (setSliceOrArray a False es v) = None \<longrightarrow> length (Split v (CHR '','')) = Len es"
    by auto
  have 3: "length (Split v (CHR '','')) = Len es \<longrightarrow>
            (\<forall>n m. snd (setSliceOrArray a False es v) \<noteq> Some (ArrayLengthMismatch n m))"
    using assms
    by (auto simp: setSliceOrArray_def Let_def split: sum.splits dest!: range_parts_error)
  from 1 2 3 show ?thesis by blast
qed

theorem array_length_must_match_witness:
  "''1,2'' \<noteq> [] \<and> ''1,2,3'' \<noteq> []
   \<and> (elemKind (IntElems [7, 8, 9]) = reflect_Int \<or> elemKind (IntElems [7, 8, 9]) = reflect_Int64)
   \<and> length (Split ''1,2'' (CHR '','')) = 2
   \<and> length (Split ''1,2,3'' (CHR '','')) = 3
   \<and> Len (IntElems [7, 8, 9]) = 3
   \<and> setSliceOrArray Arch64 False (IntElems [7, 8, 9]) ''1,2''
       = (IntElems [7, 8, 9], Some (ArrayLengthMismatch 2 3))
   \<and> setSliceOrArray Arch64 False (IntElems [7, 8, 9]) ''1,2,3'' = (IntElems [1, 2, 3], None)
   \<and> (\<forall>n m. snd (setSliceOrArray Arch64 False (IntElems [7, 8, 9]) ''1,2,3'')
              \<noteq> Some (ArrayLengthMismatch n m))"
proof -
  have v: "''1,2'' \<noteq> []" "''1,2,3'' \<noteq> []" by simp_all
  have k: "elemKind (IntElems [7, 8, 9]) = reflect_Int \<or> elemKind (IntElems [7, 8, 9]) = reflect_Int64"
    by simp
  have l2: "length (Split ''1,2'' (CHR '','')) = 2" by simp
  have l3: "length (Split ''1,2,3'' (CHR '','')) = 3" by simp
  have n: "Len (IntElems [7, 8, 9]) = 3" by simp
  have ok: "setSliceOrArray Arch64 False (IntElems [7, 8, 9]) ''1,2,3'' = (IntElems [1, 2, 3], None)"
    by code_simp
  from array_length_must_match [OF v(1) k, of Arch64] l2 n
  have a: "setSliceOrArray Arch64 False (IntElems [7, 8, 9]) ''1,2''
       = (IntElems [7, 8, 9], Some (ArrayLengthMismatch 2 3))"
    by simp
  from array_length_must_match [OF v(2) k, of Arch64] l3 n
  have b: "\<forall>n m. snd (setSliceOrArray Arch64 False (IntElems [7, 8, 9]) ''1,2,3'')
              \<noteq> Some (ArrayLengthMismatch n m)"
    by simp
  from v k l2 l3 n ok a b show ?thesis by (intro conjI)
qed

lemma parseIntSlice_ok:
  "list_all2 (\<lambda>p x. token_value (Atoi a) p = Inr x) (Split v (CHR '','')) xs \<Longrightarrow>
     parseIntSlice a v = Inr xs"
  by (simp add: parseIntSlice_def range_parts_ok)

lemma parseIntSlice_fail:
  "Split v (CHR '','') = ps @ q # rest \<Longrightarrow>
   list_all2 (\<lambda>p x. token_value (Atoi a) p = Inr x) ps ys \<Longrightarrow>
   token_value (Atoi a) q = Inl e \<Longrightarrow>
     parseIntSlice a v = Inl (InvalidIntAt (length ps) e)"
  by (simp add: parseIntSlice_def range_parts_fail)

lemma parseInt64Slice_ok:
  "list_all2 (\<lambda>p x. token_value (\<lambda>s. ParseInt a s 64) p = Inr x) (Split v (CHR '','')) xs \<Longrightarrow>
     parseInt64Slice a v = Inr xs"
  by (simp add: parseInt64Slice_def range_parts_ok)

lemma parseInt64Slice_fail:
  "Split v (CHR '','') = ps @ q # rest \<Longrightarrow>
   list_all2 (\<lambda>p x. token_value (\<lambda>s. ParseInt a s 64) p = Inr x) ps ys \<Longrightarrow>
   token_value (\<lambda>s. ParseInt a s 64) q = Inl e \<Longrightarrow>
     parseInt64Slice a v = Inl (InvalidInt64At (length ps) e)"
  by (simp add: parseInt64Slice_def range_parts_fail)

text \<open>
  C7. The tokens are the pieces of the raw string between its commas (joining them with
  commas gives the string back, and no token holds a comma). The value of a token is 0
  if the trimmed token is empty, and what the integer parser makes of the trimmed token
  otherwise. If every token has a value, the result is the list of the values in order:
  for \<open>parseIntSlice\<close> and \<open>parseInt64Slice\<close> on every string, and for a slice or an
  array field on every non-empty string (an \<open>int\<close> element takes the value converted
  to \<open>int\<close>). If the token at index \<open>length ps\<close> is the first without a value, the
  result is the error that carries this index and the parser's error, and a field is
  as it was.
\<close>

theorem collection_parser_tokens:
  "Join (Split v (CHR '','')) '','' = v
   \<and> (\<forall>p \<in> set (Split v (CHR '','')). CHR '','' \<notin> set p)
   \<and> (TrimSpace p = [] \<longrightarrow> token_value parse p = Inr 0)
   \<and> (TrimSpace p \<noteq> [] \<longrightarrow> token_value parse p = parse (TrimSpace p))
   \<and> (list_all2 (\<lambda>p x. token_value (Atoi a) p = Inr x) (Split v (CHR '','')) xs \<longrightarrow>
        parseIntSlice a v = Inr xs)
   \<and> (Split v (CHR '','') = ps @ q # rest
        \<and> list_all2 (\<lambda>p x. token_value (Atoi a) p = Inr x) ps ys
        \<and> token_value (Atoi a) q = Inl e \<longrightarrow>
        parseIntSlice a v = Inl (InvalidIntAt (length ps) e))
   \<and> (list_all2 (\<lambda>p x. token_value (\<lambda>s. ParseInt a s 64) p = Inr x) (Split v (CHR '','')) xs \<longrightarrow>
        parseInt64Slice a v = Inr xs
        \<and> (v \<noteq> [] \<longrightarrow>
             setSliceOrArray a True (IntElems old) v
               = (IntElems (map (to_signed (IntSize a)) xs), None)
             \<and> setSliceOrArray a True (Int64Elems old) v = (Int64Elems xs, None))
        \<and> (v \<noteq> [] \<and> length (Split v (CHR '','')) = length old \<longrightarrow>
             setSliceOrArray a False (IntElems old) v
               = (IntElems (map (to_signed (IntSize a)) xs), None)
             \<and> setSliceOrArray a False (Int64Elems old) v = (Int64Elems xs, None)))
   \<and> (Split v (CHR '','') = ps @ q # rest
        \<and> list_all2 (\<lambda>p x. token_value (\<lambda>s. ParseInt a s 64) p = Inr x) ps ys
        \<and> token_value (\<lambda>s. ParseInt a s 64) q = Inl e \<longrightarrow>
        parseInt64Slice a v = Inl (InvalidInt64At (length ps) e)
        \<and> (v \<noteq> [] \<and> (elemKind es = reflect_Int \<or> elemKind es = reflect_Int64)
             \<and> (isSlice \<or> length (Split v (CHR '','')) = Len es) \<longrightarrow>
             setSliceOrArray a isSlice es v = (es, Some (InvalidIntAt (length ps) e))))"
proof -
  have 1: "Join (Split v (CHR '','')) '','' = v"
    by (rule Join_Split)
  have 2: "\<forall>p \<in> set (Split v (CHR '','')). CHR '','' \<notin> set p"
    by (auto dest: Split_no_sep)
  have 3: "TrimSpace p = [] \<longrightarrow> token_value parse p = Inr 0"
    by (simp add: token_value_def)
  have 4: "TrimSpace p \<noteq> [] \<longrightarrow> token_value parse p = parse (TrimSpace p)"
    by (simp add: token_value_def)
  have 5: "list_all2 (\<lambda>p x. token_value (Atoi a) p = Inr x) (Split v (CHR '','')) xs \<longrightarrow>
        parseIntSlice a v = Inr xs"
    by (simp add: parseIntSlice_ok)
  have 6: "Split v (CHR '','') = ps @ q # rest
        \<and> list_all2 (\<lambda>p x. token_value (Atoi a) p = Inr x) ps ys
        \<and> token_value (Atoi a) q = Inl e \<longrightarrow>
        parseIntSlice a v = Inl (InvalidIntAt (length ps) e)"
    by (auto intro: parseIntSlice_fail)
  have 7: "list_all2 (\<lambda>p x. token_value (\<lambda>s. ParseInt a s 64) p = Inr x) (Split v (CHR '','')) xs \<longrightarrow>
        parseInt64Slice a v = Inr xs
        \<and> (v \<noteq> [] \<longrightarrow>
             setSliceOrArray a True (IntElems old) v
               = (IntElems (map (to_signed (IntSize a)) xs), None)
             \<and> setSliceOrArray a True (Int64Elems old) v = (Int64Elems xs, None))
        \<and> (v \<noteq> [] \<and> length (Split v (CHR '','')) = length old \<longrightarrow>
             setSliceOrArray a False (IntElems old) v
               = (IntElems (map (to_signed (IntSize a)) xs), None)
             \<and> setSliceOrArray a False (Int64Elems old) v = (Int64Elems xs, None))"
  proof
    assume h: "list_all2 (\<lambda>p x. token_value (\<lambda>s. ParseInt a s 64) p = Inr x) (Split v (CHR '','')) xs"
    then have r: "range_parts (\<lambda>part. ParseInt a part 64) InvalidIntAt 0 (Split v (CHR '','')) []
        = Inr xs"
      by (simp add: range_parts_ok)
    from h have "parseInt64Slice a v = Inr xs" by (rule parseInt64Slice_ok)
    with r show "parseInt64Slice a v = Inr xs
        \<and> (v \<noteq> [] \<longrightarrow>
             setSliceOrArray a True (IntElems old) v
               = (IntElems (map (to_signed (IntSize a)) xs), None)
             \<and> setSliceOrArray a True (Int64Elems old) v = (Int64Elems xs, None))
        \<and> (v \<noteq> [] \<and> length (Split v (CHR '','')) = length old \<longrightarrow>
             setSliceOrArray a False (IntElems old) v
               = (IntElems (map (to_signed (IntSize a)) xs), None)
             \<and> setSliceOrArray a False (Int64Elems old) v = (Int64Elems xs, None))"
      by (simp add: setSliceOrArray_slice_IntElems setSliceOrArray_slice_Int64Elems
          setSliceOrArray_array_IntElems setSliceOrArray_array_Int64Elems)
  qed
  have 8: "Split v (CHR '','') = ps @ q # rest
        \<and> list_all2 (\<lambda>p x. token_value (\<lambda>s. ParseInt a s 64) p = Inr x) ps ys
        \<and> token_value (\<lambda>s. ParseInt a s 64) q = Inl e \<longrightarrow>
        parseInt64Slice a v = Inl (InvalidInt64At (length ps) e)
        \<and> (v \<noteq> [] \<and> (elemKind es = reflect_Int \<or> elemKind es = reflect_Int64)
             \<and> (isSlice \<or> length (Split v (CHR '','')) = Len es) \<longrightarrow>
             setSliceOrArray a isSlice es v = (es, Some (InvalidIntAt (length ps) e)))"
  proof
    assume h: "Split v (CHR '','') = ps @ q # rest
        \<and> list_all2 (\<lambda>p x. token_value (\<lambda>s. ParseInt a s 64) p = Inr x) ps ys
        \<and> token_value (\<lambda>s. ParseInt a s 64) q = Inl e"
    then have r: "range_parts (\<lambda>part. ParseInt a part 64) InvalidIntAt 0 (Split v (CHR '','')) []
        = Inl (InvalidIntAt (length ps) e)"
      using range_parts_fail [of "\<lambda>s. ParseInt a s 64" ps ys q e InvalidIntAt 0 rest "[]"]
      by simp
    from h have "parseInt64Slice a v = Inl (InvalidInt64At (length ps) e)"
      by (auto intro: parseInt64Slice_fail)
    with r show "parseInt64Slice a v = Inl (InvalidInt64At (length ps) e)
        \<and> (v \<noteq> [] \<and> (elemKind es = reflect_Int \<or> elemKind es = reflect_Int64)
             \<and> (isSlice \<or> length (Split v (CHR '','')) = Len es) \<longrightarrow>
             setSliceOrArray a isSlice es v = (es, Some (InvalidIntAt (length ps) e)))"
      by (auto intro: setSliceOrArray_token_error)
  qed
  from 1 2 3 4 5 6 7 8 show ?thesis by (intro conjI)
qed

theorem collection_parser_tokens_witness:
  "(TrimSpace '' 1 '' \<noteq> [] \<and> TrimSpace '' 1 '' = ''1'' \<and> TrimSpace '''' = []
     \<and> token_value (Atoi Arch64) '' 1 '' = Inr 1 \<and> token_value (Atoi Arch64) '''' = Inr 0)
   \<and> (list_all2 (\<lambda>p x. token_value (Atoi Arch64) p = Inr x) (Split ''1,,3'' (CHR '','')) [1, 0, 3]
     \<and> list_all2 (\<lambda>p x. token_value (\<lambda>s. ParseInt Arch64 s 64) p = Inr x)
          (Split ''1,,3'' (CHR '','')) [1, 0, 3]
     \<and> ''1,,3'' \<noteq> []
     \<and> parseIntSlice Arch64 ''1,,3'' = Inr [1, 0, 3]
     \<and> parseInt64Slice Arch64 ''1,,3'' = Inr [1, 0, 3]
     \<and> setSliceOrArray Arch64 True (IntElems []) ''1,,3'' = (IntElems [1, 0, 3], None))
   \<and> (list_all2 (\<lambda>p x. token_value (Atoi Arch64) p = Inr x)
          (Split '' 1 , 2 , 3 '' (CHR '','')) [1, 2, 3]
     \<and> list_all2 (\<lambda>p x. token_value (\<lambda>s. ParseInt Arch64 s 64) p = Inr x)
          (Split '' 1 , 2 , 3 '' (CHR '','')) [1, 2, 3]
     \<and> '' 1 , 2 , 3 '' \<noteq> []
     \<and> length (Split '' 1 , 2 , 3 '' (CHR '','')) = length [7, 8, 9 :: int]
     \<and> parseIntSlice Arch64 '' 1 , 2 , 3 '' = Inr [1, 2, 3]
     \<and> parseInt64Slice Arch64 '' 1 , 2 , 3 '' = Inr [1, 2, 3]
     \<and> setSliceOrArray Arch64 False (Int64Elems [7, 8, 9]) '' 1 , 2 , 3 ''
         = (Int64Elems [1, 2, 3], None))
   \<and> (Split ''8080,not_a_number,8082'' (CHR '','') = [''8080''] @ ''not_a_number'' # [''8082'']
     \<and> list_all2 (\<lambda>p x. token_value (Atoi Arch64) p = Inr x) [''8080''] [8080]
     \<and> token_value (Atoi Arch64) ''not_a_number''
         = Inl (NumError ''Atoi'' ''not_a_number'' ErrSyntax)
     \<and> list_all2 (\<lambda>p x. token_value (\<lambda>s. ParseInt Arch64 s 64) p = Inr x) [''8080''] [8080]
     \<and> token_value (\<lambda>s. ParseInt Arch64 s 64) ''not_a_number''
         = Inl (NumError ''ParseInt'' ''not_a_number'' ErrSyntax)
     \<and> ''8080,not_a_number,8082'' \<noteq> []
     \<and> (elemKind (IntElems [5]) = reflect_Int \<or> elemKind (IntElems [5]) = reflect_Int64)
     \<and> parseIntSlice Arch64 ''8080,not_a_number,8082''
         = Inl (InvalidIntAt 1 (NumError ''Atoi'' ''not_a_number'' ErrSyntax))
     \<and> parseInt64Slice Arch64 ''8080,not_a_number,8082''
         = Inl (InvalidInt64At 1 (NumError ''ParseInt'' ''not_a_number'' ErrSyntax))
     \<and> setSliceOrArray Arch64 True (IntElems [5]) ''8080,not_a_number,8082''
         = (IntElems [5], Some (InvalidIntAt 1 (NumError ''ParseInt'' ''not_a_number'' ErrSyntax))))"
proof -
  let ?tokA = "\<lambda>p x. token_value (Atoi Arch64) p = Inr x"
  let ?tokP = "\<lambda>p x. token_value (\<lambda>s. ParseInt Arch64 s 64) p = Inr x"
  let ?bad = "''8080,not_a_number,8082''"
  have t1: "TrimSpace '' 1 '' \<noteq> []" by code_simp
  have t2: "TrimSpace '' 1 '' = ''1''" by code_simp
  have t3: "TrimSpace '''' = []" by code_simp
  have a1: "Atoi Arch64 ''1'' = Inr 1" by code_simp
  from collection_parser_tokens [where p = "'' 1 ''" and parse = "Atoi Arch64"] t1 t2 a1
  have t4: "token_value (Atoi Arch64) '' 1 '' = Inr 1" by simp
  from collection_parser_tokens [where p = "''''" and parse = "Atoi Arch64"] t3
  have t5: "token_value (Atoi Arch64) '''' = Inr 0" by simp

  have e1: "list_all2 ?tokA (Split ''1,,3'' (CHR '','')) [1, 0, 3]" by code_simp
  have e2: "list_all2 ?tokP (Split ''1,,3'' (CHR '','')) [1, 0, 3]" by code_simp
  have e3: "''1,,3'' \<noteq> []" by simp
  note E = collection_parser_tokens [where v = "''1,,3''" and a = Arch64 and xs = "[1, 0, 3]"
      and old = "[]"]
  from E e1 have e4: "parseIntSlice Arch64 ''1,,3'' = Inr [1, 0, 3]" by blast
  from E e2 have e5: "parseInt64Slice Arch64 ''1,,3'' = Inr [1, 0, 3]" by blast
  from E e2 e3 have "setSliceOrArray Arch64 True (IntElems []) ''1,,3''
      = (IntElems (map (to_signed (IntSize Arch64)) [1, 0, 3]), None)" by blast
  then have e6: "setSliceOrArray Arch64 True (IntElems []) ''1,,3'' = (IntElems [1, 0, 3], None)"
    by (simp add: to_signed_def)

  have w1: "list_all2 ?tokA (Split '' 1 , 2 , 3 '' (CHR '','')) [1, 2, 3]" by code_simp
  have w2: "list_all2 ?tokP (Split '' 1 , 2 , 3 '' (CHR '','')) [1, 2, 3]" by code_simp
  have w3: "'' 1 , 2 , 3 '' \<noteq> []" by simp
  have w4: "length (Split '' 1 , 2 , 3 '' (CHR '','')) = length [7, 8, 9 :: int]" by simp
  note W = collection_parser_tokens [where v = "'' 1 , 2 , 3 ''" and a = Arch64
      and xs = "[1, 2, 3]" and old = "[7, 8, 9]"]
  from W w1 have w5: "parseIntSlice Arch64 '' 1 , 2 , 3 '' = Inr [1, 2, 3]" by blast
  from W w2 have w6: "parseInt64Slice Arch64 '' 1 , 2 , 3 '' = Inr [1, 2, 3]" by blast
  from W w2 w3 w4 have w7: "setSliceOrArray Arch64 False (Int64Elems [7, 8, 9]) '' 1 , 2 , 3 ''
         = (Int64Elems [1, 2, 3], None)" by blast

  have f1: "Split ?bad (CHR '','') = [''8080''] @ ''not_a_number'' # [''8082'']" by simp
  have f2: "list_all2 ?tokA [''8080''] [8080]" by code_simp
  have f3: "token_value (Atoi Arch64) ''not_a_number''
         = Inl (NumError ''Atoi'' ''not_a_number'' ErrSyntax)" by code_simp
  have f4: "list_all2 ?tokP [''8080''] [8080]" by code_simp
  have f5: "token_value (\<lambda>s. ParseInt Arch64 s 64) ''not_a_number''
         = Inl (NumError ''ParseInt'' ''not_a_number'' ErrSyntax)" by code_simp
  have f6: "?bad \<noteq> []" by simp
  have f7: "elemKind (IntElems [5]) = reflect_Int \<or> elemKind (IntElems [5]) = reflect_Int64"
    by simp
  note F = collection_parser_tokens [where v = ?bad and a = Arch64 and ps = "[''8080'']"
      and q = "''not_a_number''" and rest = "[''8082'']" and ys = "[8080]"
      and e = "NumError ''Atoi'' ''not_a_number'' ErrSyntax"]
  note G = collection_parser_tokens [where v = ?bad and a = Arch64 and ps = "[''8080'']"
      and q = "''not_a_number''" and rest = "[''8082'']" and ys = "[8080]"
      and e = "NumError ''ParseInt'' ''not_a_number'' ErrSyntax" and es = "IntElems [5]"
      and isSlice = True]
  from F f1 f2 f3 have "parseIntSlice Arch64 ?bad
      = Inl (InvalidIntAt (length [''8080'']) (NumError ''Atoi'' ''not_a_number'' ErrSyntax))"
    by blast
  then have f8: "parseIntSlice Arch64 ?bad
      = Inl (InvalidIntAt 1 (NumError ''Atoi'' ''not_a_number'' ErrSyntax))" by simp
  from G f1 f4 f5 have "parseInt64Slice Arch64 ?bad
      = Inl (InvalidInt64At (length [''8080'']) (NumError ''ParseInt'' ''not_a_number'' ErrSyntax))"
    by blast
  then have f9: "parseInt64Slice Arch64 ?bad
      = Inl (InvalidInt64At 1 (NumError ''ParseInt'' ''not_a_number'' ErrSyntax))" by simp
  from G f1 f4 f5 f6 f7 have "setSliceOrArray Arch64 True (IntElems [5]) ?bad
      = (IntElems [5], Some (InvalidIntAt (length [''8080''])
           (NumError ''ParseInt'' ''not_a_number'' ErrSyntax)))"
    by blast
  then have f10: "setSliceOrArray Arch64 True (IntElems [5]) ?bad
      = (IntElems [5], Some (InvalidIntAt 1 (NumError ''ParseInt'' ''not_a_number'' ErrSyntax)))"
    by simp
  from t1 t2 t3 t4 t5 e1 e2 e3 e4 e5 e6 w1 w2 w3 w4 w5 w6 w7 f1 f2 f3 f4 f5 f6 f7 f8 f9 f10
  show ?thesis by (intro conjI)
qed

section \<open>A field that fails\<close>

lemma getEnvValue_cases:
  "getEnvValue env name d = (case env name of None \<Rightarrow> d | Some v \<Rightarrow> v)"
  by (simp add: getEnvValue_def LookupEnv_def split: option.splits)

lemma setValue_bool_failure:
  "raw \<noteq> [] \<Longrightarrow> ParseBool raw = Inl e \<Longrightarrow>
     setValue a \<lparr>CanSet = True, contents = VBool old\<rparr> raw
       = (\<lparr>CanSet = True, contents = VBool old\<rparr>, Some e)"
  by (simp add: setValue_def)

lemma setValue_int_failure:
  "raw \<noteq> [] \<Longrightarrow> ParseInt a raw 64 = Inl e \<Longrightarrow>
     setValue a \<lparr>CanSet = True, contents = VInt old\<rparr> raw
       = (\<lparr>CanSet = True, contents = VInt old\<rparr>, Some e)"
  by (simp add: setValue_def)

lemma setValue_int64_failure:
  "raw \<noteq> [] \<Longrightarrow> ParseInt a raw 64 = Inl e \<Longrightarrow>
     setValue a \<lparr>CanSet = True, contents = VInt64 old\<rparr> raw
       = (\<lparr>CanSet = True, contents = VInt64 old\<rparr>, Some e)"
  by (simp add: setValue_def)

lemma setSliceOrArray_first_bad_token:
  assumes "raw \<noteq> []" and "elemKind es = reflect_Int \<or> elemKind es = reflect_Int64"
    and "isSlice \<or> length (Split raw (CHR '','')) = Len es"
    and "Split raw (CHR '','') = ps @ q # rest"
    and "list_all2 (\<lambda>p x. token_value (\<lambda>s. ParseInt a s 64) p = Inr x) ps ys"
    and "token_value (\<lambda>s. ParseInt a s 64) q = Inl e"
  shows "setSliceOrArray a isSlice es raw = (es, Some (InvalidIntAt (length ps) e))"
proof -
  from assms(4-6) have "range_parts (\<lambda>part. ParseInt a part 64) InvalidIntAt 0
      (Split raw (CHR '','')) [] = Inl (InvalidIntAt (length ps) e)"
    using range_parts_fail [of "\<lambda>s. ParseInt a s 64" ps ys q e InvalidIntAt 0 rest "[]"]
    by simp
  with assms(1-3) show ?thesis by (rule setSliceOrArray_token_error)
qed

lemma setSliceOrArray_length_mismatch:
  assumes "raw \<noteq> []" and "elemKind es = reflect_Int \<or> elemKind es = reflect_Int64"
    and "length (Split raw (CHR '','')) \<noteq> Len es"
  shows "setSliceOrArray a False es raw
           = (es, Some (ArrayLengthMismatch (length (Split raw (CHR '',''))) (Len es)))"
  using assms by (auto simp: setSliceOrArray_def)

lemma setSliceOrArray_unsupported_elem:
  "elemKind es \<noteq> reflect_Int \<Longrightarrow> elemKind es \<noteq> reflect_Int64 \<Longrightarrow>
     setSliceOrArray a isSlice es raw = (es, Some (UnsupportedElem (elemKind es)))"
  by (simp add: setSliceOrArray_def)

lemma setValue_slice:
  "setSliceOrArray a True es raw = (es, Some e) \<Longrightarrow>
     setValue a \<lparr>CanSet = True, contents = VSlice es\<rparr> raw
       = (\<lparr>CanSet = True, contents = VSlice es\<rparr>, Some e)"
  by (simp add: setValue_def)

lemma setValue_array:
  "setSliceOrArray a False es raw = (es, Some e) \<Longrightarrow>
     setValue a \<lparr>CanSet = True, contents = VArray es\<rparr> raw
       = (\<lparr>CanSet = True, contents = VArray es\<rparr>, Some e)"
  by (simp add: setValue_def)

lemma setValue_other:
  "setValue a \<lparr>CanSet = True, contents = VOther k\<rparr> raw
     = (\<lparr>CanSet = True, contents = VOther k\<rparr>, Some (UnsupportedKind k))"
  by (simp add: setValue_def)

lemma setValue_failure:
  assumes
    "(\<exists>old. g = VBool old \<and> raw \<noteq> [] \<and> ParseBool raw = Inl e)
     \<or> (\<exists>old. (g = VInt old \<or> g = VInt64 old) \<and> raw \<noteq> [] \<and> ParseInt a raw 64 = Inl e)
     \<or> (\<exists>es ps q rest ys e'.
           (g = VSlice es \<or> g = VArray es \<and> length (Split raw (CHR '','')) = Len es)
           \<and> (elemKind es = reflect_Int \<or> elemKind es = reflect_Int64) \<and> raw \<noteq> []
           \<and> Split raw (CHR '','') = ps @ q # rest
           \<and> list_all2 (\<lambda>p x. token_value (\<lambda>s. ParseInt a s 64) p = Inr x) ps ys
           \<and> token_value (\<lambda>s. ParseInt a s 64) q = Inl e'
           \<and> e = InvalidIntAt (length ps) e')
     \<or> (\<exists>es. g = VArray es \<and> (elemKind es = reflect_Int \<or> elemKind es = reflect_Int64)
           \<and> raw \<noteq> [] \<and> length (Split raw (CHR '','')) \<noteq> Len es
           \<and> e = ArrayLengthMismatch (length (Split raw (CHR '',''))) (Len es))
     \<or> (\<exists>es. (g = VSlice es \<or> g = VArray es)
           \<and> elemKind es \<noteq> reflect_Int \<and> elemKind es \<noteq> reflect_Int64
           \<and> e = UnsupportedElem (elemKind es))
     \<or> (\<exists>k. g = VOther k \<and> e = UnsupportedKind k)"
  shows "setValue a \<lparr>CanSet = True, contents = g\<rparr> raw
           = (\<lparr>CanSet = True, contents = g\<rparr>, Some e)"
  using assms
proof (elim disjE exE conjE)
  fix old assume "g = VBool old" "raw \<noteq> []" "ParseBool raw = Inl e"
  then show ?thesis by (simp add: setValue_bool_failure)
next
  fix old assume "g = VInt old" "raw \<noteq> []" "ParseInt a raw 64 = Inl e"
  then show ?thesis by (simp add: setValue_int_failure)
next
  fix old assume "g = VInt64 old" "raw \<noteq> []" "ParseInt a raw 64 = Inl e"
  then show ?thesis by (simp add: setValue_int64_failure)
next
  fix es ps q rest ys e'
  assume g: "g = VSlice es"
    and h: "elemKind es = reflect_Int" "raw \<noteq> []" "Split raw (CHR '','') = ps @ q # rest"
      "list_all2 (\<lambda>p x. token_value (\<lambda>s. ParseInt a s 64) p = Inr x) ps ys"
      "token_value (\<lambda>s. ParseInt a s 64) q = Inl e'" "e = InvalidIntAt (length ps) e'"
  from h have "setSliceOrArray a True es raw = (es, Some e)"
    by (simp add: setSliceOrArray_first_bad_token [where ys = ys and rest = rest])
  with g show ?thesis by (simp add: setValue_slice)
next
  fix es ps q rest ys e'
  assume g: "g = VArray es" "length (Split raw (CHR '','')) = Len es"
    and h: "elemKind es = reflect_Int" "raw \<noteq> []" "Split raw (CHR '','') = ps @ q # rest"
      "list_all2 (\<lambda>p x. token_value (\<lambda>s. ParseInt a s 64) p = Inr x) ps ys"
      "token_value (\<lambda>s. ParseInt a s 64) q = Inl e'" "e = InvalidIntAt (length ps) e'"
  from g(2) h have "setSliceOrArray a False es raw = (es, Some e)"
    by (simp add: setSliceOrArray_first_bad_token [where ys = ys and rest = rest])
  with g show ?thesis by (simp add: setValue_array)
next
  fix es ps q rest ys e'
  assume g: "g = VSlice es"
    and h: "elemKind es = reflect_Int64" "raw \<noteq> []" "Split raw (CHR '','') = ps @ q # rest"
      "list_all2 (\<lambda>p x. token_value (\<lambda>s. ParseInt a s 64) p = Inr x) ps ys"
      "token_value (\<lambda>s. ParseInt a s 64) q = Inl e'" "e = InvalidIntAt (length ps) e'"
  from h have "setSliceOrArray a True es raw = (es, Some e)"
    by (simp add: setSliceOrArray_first_bad_token [where ys = ys and rest = rest])
  with g show ?thesis by (simp add: setValue_slice)
next
  fix es ps q rest ys e'
  assume g: "g = VArray es" "length (Split raw (CHR '','')) = Len es"
    and h: "elemKind es = reflect_Int64" "raw \<noteq> []" "Split raw (CHR '','') = ps @ q # rest"
      "list_all2 (\<lambda>p x. token_value (\<lambda>s. ParseInt a s 64) p = Inr x) ps ys"
      "token_value (\<lambda>s. ParseInt a s 64) q = Inl e'" "e = InvalidIntAt (length ps) e'"
  from g(2) h have "setSliceOrArray a False es raw = (es, Some e)"
    by (simp add: setSliceOrArray_first_bad_token [where ys = ys and rest = rest])
  with g show ?thesis by (simp add: setValue_array)
next
  fix es
  assume "g = VArray es" "elemKind es = reflect_Int" "raw \<noteq> []"
    "length (Split raw (CHR '','')) \<noteq> Len es"
    "e = ArrayLengthMismatch (length (Split raw (CHR '',''))) (Len es)"
  then show ?thesis by (simp add: setValue_array setSliceOrArray_length_mismatch)
next
  fix es
  assume "g = VArray es" "elemKind es = reflect_Int64" "raw \<noteq> []"
    "length (Split raw (CHR '','')) \<noteq> Len es"
    "e = ArrayLengthMismatch (length (Split raw (CHR '',''))) (Len es)"
  then show ?thesis by (simp add: setValue_array setSliceOrArray_length_mismatch)
next
  fix es
  assume "g = VSlice es" "elemKind es \<noteq> reflect_Int" "elemKind es \<noteq> reflect_Int64"
    "e = UnsupportedElem (elemKind es)"
  then show ?thesis by (simp add: setValue_slice setSliceOrArray_unsupported_elem)
next
  fix es
  assume "g = VArray es" "elemKind es \<noteq> reflect_Int" "elemKind es \<noteq> reflect_Int64"
    "e = UnsupportedElem (elemKind es)"
  then show ?thesis by (simp add: setValue_array setSliceOrArray_unsupported_elem)
next
  fix k assume "g = VOther k" "e = UnsupportedKind k"
  then show ?thesis by (simp add: setValue_other)
qed

text \<open>
  C2. Take a field that can be set and has a variable name, with no failing field before
  it, and let \<open>raw\<close> be its resolved raw string (the variable's value if the variable is
  set, the default annotation otherwise). If parsing \<open>raw\<close> fails for the field's type
  with the error \<open>e\<close>, that is: a boolean field and \<open>strconv.ParseBool\<close> rejects the
  non-empty \<open>raw\<close>; an \<open>int\<close> or \<open>int64\<close> field and \<open>strconv.ParseInt\<close> rejects the
  non-empty \<open>raw\<close>; a slice or array of integers and the first token without a value is
  at index \<open>length ps\<close>; an array of integers and the number of tokens is not its length
  (or the field has an unsupported element type or kind), then \<open>LoadStruct\<close> returns the
  error that names the variable and wraps \<open>e\<close>. The fields before the failing one hold
  what \<open>setValue\<close> wrote; the failing field and every field after it are as they were.
  More generally every error of \<open>setValue\<close> on a field stops the loop in this way.
\<close>

theorem LoadStruct_stops_at_failing_field:
  assumes "\<forall>tf \<in> set pre. \<not> field_fails a env tf"
    and "Tag_Get t ''env'' \<noteq> []"
    and "raw = (case env (Tag_Get t ''env'') of None \<Rightarrow> Tag_Get t ''default'' | Some v \<Rightarrow> v)"
  shows
    "((\<exists>old. g = VBool old \<and> raw \<noteq> [] \<and> ParseBool raw = Inl e)
      \<or> (\<exists>old. (g = VInt old \<or> g = VInt64 old) \<and> raw \<noteq> [] \<and> ParseInt a raw 64 = Inl e)
      \<or> (\<exists>es ps q rest ys e'.
            (g = VSlice es \<or> g = VArray es \<and> length (Split raw (CHR '','')) = Len es)
            \<and> (elemKind es = reflect_Int \<or> elemKind es = reflect_Int64) \<and> raw \<noteq> []
            \<and> Split raw (CHR '','') = ps @ q # rest
            \<and> list_all2 (\<lambda>p x. token_value (\<lambda>s. ParseInt a s 64) p = Inr x) ps ys
            \<and> token_value (\<lambda>s. ParseInt a s 64) q = Inl e'
            \<and> e = InvalidIntAt (length ps) e')
      \<or> (\<exists>es. g = VArray es \<and> (elemKind es = reflect_Int \<or> elemKind es = reflect_Int64)
            \<and> raw \<noteq> [] \<and> length (Split raw (CHR '','')) \<noteq> Len es
            \<and> e = ArrayLengthMismatch (length (Split raw (CHR '',''))) (Len es))
      \<or> (\<exists>es. (g = VSlice es \<or> g = VArray es)
            \<and> elemKind es \<noteq> reflect_Int \<and> elemKind es \<noteq> reflect_Int64
            \<and> e = UnsupportedElem (elemKind es))
      \<or> (\<exists>k. g = VOther k \<and> e = UnsupportedKind k)
      \<longrightarrow>
      LoadStruct a env
          (PointerTo (Struct (pre @ (t, \<lparr>CanSet = True, contents = g\<rparr>) # post)))
        = (PointerTo (Struct (map (field_after a env) pre
                                @ (t, \<lparr>CanSet = True, contents = g\<rparr>) # post)),
           Some (EnvError (Tag_Get t ''env'') e)))
     \<and> (\<forall>f f' e0. setValue a f raw = (f', Some e0) \<longrightarrow>
           LoadStruct a env (PointerTo (Struct (pre @ (t, f) # post)))
             = (PointerTo (Struct (map (field_after a env) pre @ (t, f) # post)),
                Some (EnvError (Tag_Get t ''env'') e0)))"
proof -
  from assms(3) have raw: "getEnvValue env (Tag_Get t ''env'') (Tag_Get t ''default'') = raw"
    by (simp add: getEnvValue_cases)
  have general: "LoadStruct a env (PointerTo (Struct (pre @ (t, f) # post)))
             = (PointerTo (Struct (map (field_after a env) pre @ (t, f) # post)),
                Some (EnvError (Tag_Get t ''env'') e0))"
    if "setValue a f raw = (f', Some e0)" for f f' e0
  proof -
    from that raw
    have "setValue a f (getEnvValue env (Tag_Get t ''env'') (Tag_Get t ''default''))
        = (f', Some e0)"
      by simp
    from LoadStruct_fields_first_failure [OF assms(1) assms(2) this]
    show ?thesis by (simp add: LoadStruct_def)
  qed
  show ?thesis
  proof (intro conjI impI allI)
    assume "(\<exists>old. g = VBool old \<and> raw \<noteq> [] \<and> ParseBool raw = Inl e)
      \<or> (\<exists>old. (g = VInt old \<or> g = VInt64 old) \<and> raw \<noteq> [] \<and> ParseInt a raw 64 = Inl e)
      \<or> (\<exists>es ps q rest ys e'.
            (g = VSlice es \<or> g = VArray es \<and> length (Split raw (CHR '','')) = Len es)
            \<and> (elemKind es = reflect_Int \<or> elemKind es = reflect_Int64) \<and> raw \<noteq> []
            \<and> Split raw (CHR '','') = ps @ q # rest
            \<and> list_all2 (\<lambda>p x. token_value (\<lambda>s. ParseInt a s 64) p = Inr x) ps ys
            \<and> token_value (\<lambda>s. ParseInt a s 64) q = Inl e'
            \<and> e = InvalidIntAt (length ps) e')
      \<or> (\<exists>es. g = VArray es \<and> (elemKind es = reflect_Int \<or> elemKind es = reflect_Int64)
            \<and> raw \<noteq> [] \<and> length (Split raw (CHR '','')) \<noteq> Len es
            \<and> e = ArrayLengthMismatch (length (Split raw (CHR '',''))) (Len es))
      \<or> (\<exists>es. (g = VSlice es \<or> g = VArray es)
            \<and> elemKind es \<noteq> reflect_Int \<and> elemKind es \<noteq> reflect_Int64
            \<and> e = UnsupportedElem (elemKind es))
      \<or> (\<exists>k. g = VOther k \<and> e = UnsupportedKind k)"
    then have "setValue a \<lparr>CanSet = True, contents = g\<rparr> raw
        = (\<lparr>CanSet = True, contents = g\<rparr>, Some e)"
      by (rule setValue_failure)
    then show "LoadStruct a env
          (PointerTo (Struct (pre @ (t, \<lparr>CanSet = True, contents = g\<rparr>) # post)))
        = (PointerTo (Struct (map (field_after a env) pre
                                @ (t, \<lparr>CanSet = True, contents = g\<rparr>) # post)),
           Some (EnvError (Tag_Get t ''env'') e))"
      by (rule general)
  next
    fix f f' e0
    assume "setValue a f raw = (f', Some e0)"
    then show "LoadStruct a env (PointerTo (Struct (pre @ (t, f) # post)))
             = (PointerTo (Struct (map (field_after a env) pre @ (t, f) # post)),
                Some (EnvError (Tag_Get t ''env'') e0))"
      by (rule general)
  qed
qed

theorem LoadStruct_stops_at_failing_field_witness:
  "\<not> field_fails Arch64 [''PORT'' \<mapsto> ''not_a_number'', ''DEBUG'' \<mapsto> ''true'']
        ([(''env'', ''HOST''), (''default'', ''localhost'')],
         \<lparr>CanSet = True, contents = VString ''''\<rparr>)
   \<and> ParseInt Arch64 ''not_a_number'' 64 = Inl (NumError ''ParseInt'' ''not_a_number'' ErrSyntax)
   \<and> LoadStruct Arch64 [''PORT'' \<mapsto> ''not_a_number'', ''DEBUG'' \<mapsto> ''true'']
        (PointerTo (Struct
           [([(''env'', ''HOST''), (''default'', ''localhost'')],
             \<lparr>CanSet = True, contents = VString ''''\<rparr>),
            ([(''env'', ''PORT'')], \<lparr>CanSet = True, contents = VInt 5\<rparr>),
            ([(''env'', ''DEBUG'')], \<lparr>CanSet = True, contents = VBool False\<rparr>)]))
      = (PointerTo (Struct
           [([(''env'', ''HOST''), (''default'', ''localhost'')],
             \<lparr>CanSet = True, contents = VString ''localhost''\<rparr>),
            ([(''env'', ''PORT'')], \<lparr>CanSet = True, contents = VInt 5\<rparr>),
            ([(''env'', ''DEBUG'')], \<lparr>CanSet = True, contents = VBool False\<rparr>)]),
         Some (EnvError ''PORT'' (NumError ''ParseInt'' ''not_a_number'' ErrSyntax)))
   \<and> ParseBool ''yes'' = Inl (NumError ''ParseBool'' ''yes'' ErrSyntax)
   \<and> LoadStruct Arch64 [''DEBUG'' \<mapsto> ''yes'']
        (PointerTo (Struct [([(''env'', ''DEBUG'')], \<lparr>CanSet = True, contents = VBool True\<rparr>)]))
      = (PointerTo (Struct [([(''env'', ''DEBUG'')], \<lparr>CanSet = True, contents = VBool True\<rparr>)]),
         Some (EnvError ''DEBUG'' (NumError ''ParseBool'' ''yes'' ErrSyntax)))
   \<and> ParseInt Arch64 ''9223372036854775808'' 64
       = Inl (NumError ''ParseInt'' ''9223372036854775808'' ErrRange)
   \<and> LoadStruct Arch64 Map.empty
        (PointerTo (Struct [([(''env'', ''MAX''), (''default'', ''9223372036854775808'')],
                             \<lparr>CanSet = True, contents = VInt64 7\<rparr>)]))
      = (PointerTo (Struct [([(''env'', ''MAX''), (''default'', ''9223372036854775808'')],
                             \<lparr>CanSet = True, contents = VInt64 7\<rparr>)]),
         Some (EnvError ''MAX'' (NumError ''ParseInt'' ''9223372036854775808'' ErrRange)))
   \<and> Split ''8080,not_a_number,8082'' (CHR '','') = [''8080''] @ ''not_a_number'' # [''8082'']
   \<and> list_all2 (\<lambda>p x. token_value (\<lambda>s. ParseInt Arch64 s 64) p = Inr x) [''8080''] [8080]
   \<and> token_value (\<lambda>s. ParseInt Arch64 s 64) ''not_a_number''
       = Inl (NumError ''ParseInt'' ''not_a_number'' ErrSyntax)
   \<and> LoadStruct Arch64 [''PORTS'' \<mapsto> ''8080,not_a_number,8082'']
        (PointerTo (Struct [([(''env'', ''PORTS'')],
                             \<lparr>CanSet = True, contents = VSlice (IntElems [])\<rparr>)]))
      = (PointerTo (Struct [([(''env'', ''PORTS'')],
                             \<lparr>CanSet = True, contents = VSlice (IntElems [])\<rparr>)]),
         Some (EnvError ''PORTS''
                 (InvalidIntAt 1 (NumError ''ParseInt'' ''not_a_number'' ErrSyntax))))
   \<and> length (Split ''1,2'' (CHR '','')) = 2
   \<and> LoadStruct Arch64 [''FIXED'' \<mapsto> ''1,2'']
        (PointerTo (Struct [([(''env'', ''FIXED'')],
                             \<lparr>CanSet = True, contents = VArray (IntElems [0, 0, 0])\<rparr>)]))
      = (PointerTo (Struct [([(''env'', ''FIXED'')],
                             \<lparr>CanSet = True, contents = VArray (IntElems [0, 0, 0])\<rparr>)]),
         Some (EnvError ''FIXED'' (ArrayLengthMismatch 2 3)))
   \<and> LoadStruct Arch64 [''RATE'' \<mapsto> ''1.5'']
        (PointerTo (Struct [([(''env'', ''RATE'')],
                             \<lparr>CanSet = True, contents = VOther reflect_Float64\<rparr>)]))
      = (PointerTo (Struct [([(''env'', ''RATE'')],
                             \<lparr>CanSet = True, contents = VOther reflect_Float64\<rparr>)]),
         Some (EnvError ''RATE'' (UnsupportedKind reflect_Float64)))"
proof -
  \<comment> \<open>an \<open>int\<close> field between two others\<close>
  let ?env = "[''PORT'' \<mapsto> ''not_a_number'', ''DEBUG'' \<mapsto> ''true'']"
  let ?host = "([(''env'', ''HOST''), (''default'', ''localhost'')],
                \<lparr>CanSet = True, contents = VString ''''\<rparr>)"
  let ?debug = "([(''env'', ''DEBUG'')], \<lparr>CanSet = True, contents = VBool False\<rparr>)"
  have i1: "\<forall>tf \<in> set [?host]. \<not> field_fails Arch64 ?env tf"
    by (simp add: field_fails_def Tag_Get_def setValue_def)
  then have i1': "\<not> field_fails Arch64 ?env ?host" by simp
  have i2: "Tag_Get [(''env'', ''PORT'')] ''env'' \<noteq> []" by (simp add: Tag_Get_def)
  have i3: "''not_a_number'' = (case ?env (Tag_Get [(''env'', ''PORT'')] ''env'') of
      None \<Rightarrow> Tag_Get [(''env'', ''PORT'')] ''default'' | Some v \<Rightarrow> v)"
    by (simp add: Tag_Get_def)
  have i4: "ParseInt Arch64 ''not_a_number'' 64
      = Inl (NumError ''ParseInt'' ''not_a_number'' ErrSyntax)"
    by code_simp
  have i5: "''not_a_number'' \<noteq> []" by simp
  have im: "map (field_after Arch64 ?env) [?host]
      = [([(''env'', ''HOST''), (''default'', ''localhost'')],
          \<lparr>CanSet = True, contents = VString ''localhost''\<rparr>)]"
    by (simp add: field_after_def Tag_Get_def getEnvValue_def LookupEnv_def setValue_def)
  have "LoadStruct Arch64 ?env
        (PointerTo (Struct ([?host] @ ([(''env'', ''PORT'')], \<lparr>CanSet = True, contents = VInt 5\<rparr>)
           # [?debug])))
      = (PointerTo (Struct (map (field_after Arch64 ?env) [?host]
           @ ([(''env'', ''PORT'')], \<lparr>CanSet = True, contents = VInt 5\<rparr>) # [?debug])),
         Some (EnvError (Tag_Get [(''env'', ''PORT'')] ''env'')
                 (NumError ''ParseInt'' ''not_a_number'' ErrSyntax)))"
    by (rule LoadStruct_stops_at_failing_field [OF i1 i2 i3, where g = "VInt 5"
      and e = "NumError ''ParseInt'' ''not_a_number'' ErrSyntax" and post = "[?debug]",
          THEN conjunct1, THEN mp],
        rule disjI2, rule disjI1, rule exI [of _ 5])
      (simp add: i4)
  then have c1: "LoadStruct Arch64 ?env
        (PointerTo (Struct [?host, ([(''env'', ''PORT'')], \<lparr>CanSet = True, contents = VInt 5\<rparr>),
           ?debug]))
      = (PointerTo (Struct
           [([(''env'', ''HOST''), (''default'', ''localhost'')],
             \<lparr>CanSet = True, contents = VString ''localhost''\<rparr>),
            ([(''env'', ''PORT'')], \<lparr>CanSet = True, contents = VInt 5\<rparr>), ?debug]),
         Some (EnvError ''PORT'' (NumError ''ParseInt'' ''not_a_number'' ErrSyntax)))"
    unfolding im by (simp add: Tag_Get_def)

  \<comment> \<open>a boolean field\<close>
  have e0: "\<forall>tf \<in> set ([] :: struct). \<not> field_fails Arch64 env tf" for env by simp
  have b2: "Tag_Get [(''env'', ''DEBUG'')] ''env'' \<noteq> []" by (simp add: Tag_Get_def)
  have b3: "''yes'' = (case [''DEBUG'' \<mapsto> ''yes''] (Tag_Get [(''env'', ''DEBUG'')] ''env'') of
      None \<Rightarrow> Tag_Get [(''env'', ''DEBUG'')] ''default'' | Some v \<Rightarrow> v)"
    by (simp add: Tag_Get_def)
  have b4: "ParseBool ''yes'' = Inl (NumError ''ParseBool'' ''yes'' ErrSyntax)"
    by (simp add: ParseBool_def true_tokens_def false_tokens_def)
  have b5: "''yes'' \<noteq> []" by simp
  have "LoadStruct Arch64 [''DEBUG'' \<mapsto> ''yes'']
        (PointerTo (Struct ([] @ ([(''env'', ''DEBUG'')], \<lparr>CanSet = True, contents = VBool True\<rparr>)
           # [])))
      = (PointerTo (Struct (map (field_after Arch64 [''DEBUG'' \<mapsto> ''yes'']) []
           @ ([(''env'', ''DEBUG'')], \<lparr>CanSet = True, contents = VBool True\<rparr>) # [])),
         Some (EnvError (Tag_Get [(''env'', ''DEBUG'')] ''env'')
                 (NumError ''ParseBool'' ''yes'' ErrSyntax)))"
    by (rule LoadStruct_stops_at_failing_field [OF e0 [of "[''DEBUG'' \<mapsto> ''yes'']"] b2 b3, where g = "VBool True"
      and e = "NumError ''ParseBool'' ''yes'' ErrSyntax" and post = "[]",
          THEN conjunct1, THEN mp],
        rule disjI1, rule exI [of _ True])
      (simp add: b4)
  then have c2: "LoadStruct Arch64 [''DEBUG'' \<mapsto> ''yes'']
        (PointerTo (Struct [([(''env'', ''DEBUG'')], \<lparr>CanSet = True, contents = VBool True\<rparr>)]))
      = (PointerTo (Struct [([(''env'', ''DEBUG'')], \<lparr>CanSet = True, contents = VBool True\<rparr>)]),
         Some (EnvError ''DEBUG'' (NumError ''ParseBool'' ''yes'' ErrSyntax)))"
    by (simp add: Tag_Get_def)

  \<comment> \<open>an \<open>int64\<close> field whose raw string is the default annotation\<close>
  let ?max = "[(''env'', ''MAX''), (''default'', ''9223372036854775808'')]"
  have m2: "Tag_Get ?max ''env'' \<noteq> []" by (simp add: Tag_Get_def)
  have m3: "''9223372036854775808'' = (case Map.empty (Tag_Get ?max ''env'') of
      None \<Rightarrow> Tag_Get ?max ''default'' | Some v \<Rightarrow> v)"
    by (simp add: Tag_Get_def)
  have m4: "ParseInt Arch64 ''9223372036854775808'' 64
      = Inl (NumError ''ParseInt'' ''9223372036854775808'' ErrRange)"
    by code_simp
  have m5: "''9223372036854775808'' \<noteq> []" by simp
  have "LoadStruct Arch64 Map.empty
        (PointerTo (Struct ([] @ (?max, \<lparr>CanSet = True, contents = VInt64 7\<rparr>) # [])))
      = (PointerTo (Struct (map (field_after Arch64 Map.empty) []
           @ (?max, \<lparr>CanSet = True, contents = VInt64 7\<rparr>) # [])),
         Some (EnvError (Tag_Get ?max ''env'')
                 (NumError ''ParseInt'' ''9223372036854775808'' ErrRange)))"
    by (rule LoadStruct_stops_at_failing_field [OF e0 [of Map.empty] m2 m3, where g = "VInt64 7"
      and e = "NumError ''ParseInt'' ''9223372036854775808'' ErrRange" and post = "[]",
          THEN conjunct1, THEN mp],
        rule disjI2, rule disjI1, rule exI [of _ 7])
      (simp add: m4)
  then have c3: "LoadStruct Arch64 Map.empty
        (PointerTo (Struct [(?max, \<lparr>CanSet = True, contents = VInt64 7\<rparr>)]))
      = (PointerTo (Struct [(?max, \<lparr>CanSet = True, contents = VInt64 7\<rparr>)]),
         Some (EnvError ''MAX'' (NumError ''ParseInt'' ''9223372036854775808'' ErrRange)))"
    by (simp add: Tag_Get_def)

  \<comment> \<open>a slice with a token that does not parse\<close>
  let ?bad = "''8080,not_a_number,8082''"
  have s2: "Tag_Get [(''env'', ''PORTS'')] ''env'' \<noteq> []" by (simp add: Tag_Get_def)
  have s3: "?bad = (case [''PORTS'' \<mapsto> ?bad] (Tag_Get [(''env'', ''PORTS'')] ''env'') of
      None \<Rightarrow> Tag_Get [(''env'', ''PORTS'')] ''default'' | Some v \<Rightarrow> v)"
    by (simp add: Tag_Get_def)
  have s4: "Split ?bad (CHR '','') = [''8080''] @ ''not_a_number'' # [''8082'']" by simp
  have s5: "list_all2 (\<lambda>p x. token_value (\<lambda>s. ParseInt Arch64 s 64) p = Inr x) [''8080''] [8080]"
    by code_simp
  have s5': "token_value (\<lambda>s. ParseInt Arch64 s 64) ''8080'' = Inr 8080"
    by code_simp
  have s6: "token_value (\<lambda>s. ParseInt Arch64 s 64) ''not_a_number''
      = Inl (NumError ''ParseInt'' ''not_a_number'' ErrSyntax)"
    by code_simp
  have s7: "?bad \<noteq> []" by simp
  have s8: "elemKind (IntElems []) = reflect_Int" by simp
  have "LoadStruct Arch64 [''PORTS'' \<mapsto> ?bad]
        (PointerTo (Struct ([] @ ([(''env'', ''PORTS'')],
           \<lparr>CanSet = True, contents = VSlice (IntElems [])\<rparr>) # [])))
      = (PointerTo (Struct (map (field_after Arch64 [''PORTS'' \<mapsto> ?bad]) []
           @ ([(''env'', ''PORTS'')], \<lparr>CanSet = True, contents = VSlice (IntElems [])\<rparr>) # [])),
         Some (EnvError (Tag_Get [(''env'', ''PORTS'')] ''env'')
                 (InvalidIntAt (length [''8080''])
                    (NumError ''ParseInt'' ''not_a_number'' ErrSyntax))))"
    by (rule LoadStruct_stops_at_failing_field [OF e0 [of "[''PORTS'' \<mapsto> ?bad]"] s2 s3, where g = "VSlice (IntElems [])"
      and e = "InvalidIntAt (length [''8080'']) (NumError ''ParseInt'' ''not_a_number'' ErrSyntax)"
      and post = "[]",
          THEN conjunct1, THEN mp],
        rule disjI2, rule disjI2, rule disjI1,
        rule exI [of _ "IntElems []"], rule exI [of _ "[''8080'']"],
        rule exI [of _ "''not_a_number''"], rule exI [of _ "[''8082'']"], rule exI [of _ "[8080]"],
        rule exI [of _ "NumError ''ParseInt'' ''not_a_number'' ErrSyntax"])
      (simp add: s5' s6)
  then have c4: "LoadStruct Arch64 [''PORTS'' \<mapsto> ?bad]
        (PointerTo (Struct [([(''env'', ''PORTS'')],
                             \<lparr>CanSet = True, contents = VSlice (IntElems [])\<rparr>)]))
      = (PointerTo (Struct [([(''env'', ''PORTS'')],
                             \<lparr>CanSet = True, contents = VSlice (IntElems [])\<rparr>)]),
         Some (EnvError ''PORTS''
                 (InvalidIntAt 1 (NumError ''ParseInt'' ''not_a_number'' ErrSyntax))))"
    by (simp add: Tag_Get_def)

  \<comment> \<open>an array with too few tokens\<close>
  have f2: "Tag_Get [(''env'', ''FIXED'')] ''env'' \<noteq> []" by (simp add: Tag_Get_def)
  have f3: "''1,2'' = (case [''FIXED'' \<mapsto> ''1,2''] (Tag_Get [(''env'', ''FIXED'')] ''env'') of
      None \<Rightarrow> Tag_Get [(''env'', ''FIXED'')] ''default'' | Some v \<Rightarrow> v)"
    by (simp add: Tag_Get_def)
  have f4: "length (Split ''1,2'' (CHR '','')) = 2" by simp
  have f5: "length (Split ''1,2'' (CHR '','')) \<noteq> Len (IntElems [0, 0, 0])" by simp
  have f6: "''1,2'' \<noteq> []" by simp
  have f7: "elemKind (IntElems [0, 0, 0]) = reflect_Int" by simp
  have "LoadStruct Arch64 [''FIXED'' \<mapsto> ''1,2'']
        (PointerTo (Struct ([] @ ([(''env'', ''FIXED'')],
           \<lparr>CanSet = True, contents = VArray (IntElems [0, 0, 0])\<rparr>) # [])))
      = (PointerTo (Struct (map (field_after Arch64 [''FIXED'' \<mapsto> ''1,2'']) []
           @ ([(''env'', ''FIXED'')],
              \<lparr>CanSet = True, contents = VArray (IntElems [0, 0, 0])\<rparr>) # [])),
         Some (EnvError (Tag_Get [(''env'', ''FIXED'')] ''env'')
                 (ArrayLengthMismatch (length (Split ''1,2'' (CHR '','')))
                    (Len (IntElems [0, 0, 0])))))"
    by (rule LoadStruct_stops_at_failing_field [OF e0 [of "[''FIXED'' \<mapsto> ''1,2'']"] f2 f3, where g = "VArray (IntElems [0, 0, 0])"
      and e = "ArrayLengthMismatch (length (Split ''1,2'' (CHR '',''))) (Len (IntElems [0, 0, 0]))"
      and post = "[]",
          THEN conjunct1, THEN mp],
        rule disjI2, rule disjI2, rule disjI2, rule disjI1,
        rule exI [of _ "IntElems [0, 0, 0]"])
      (simp)
  then have c5: "LoadStruct Arch64 [''FIXED'' \<mapsto> ''1,2'']
        (PointerTo (Struct [([(''env'', ''FIXED'')],
                             \<lparr>CanSet = True, contents = VArray (IntElems [0, 0, 0])\<rparr>)]))
      = (PointerTo (Struct [([(''env'', ''FIXED'')],
                             \<lparr>CanSet = True, contents = VArray (IntElems [0, 0, 0])\<rparr>)]),
         Some (EnvError ''FIXED'' (ArrayLengthMismatch 2 3)))"
    by (simp add: Tag_Get_def)

  \<comment> \<open>a field of an unsupported kind\<close>
  have r2: "Tag_Get [(''env'', ''RATE'')] ''env'' \<noteq> []" by (simp add: Tag_Get_def)
  have r3: "''1.5'' = (case [''RATE'' \<mapsto> ''1.5''] (Tag_Get [(''env'', ''RATE'')] ''env'') of
      None \<Rightarrow> Tag_Get [(''env'', ''RATE'')] ''default'' | Some v \<Rightarrow> v)"
    by (simp add: Tag_Get_def)
  have "LoadStruct Arch64 [''RATE'' \<mapsto> ''1.5'']
        (PointerTo (Struct ([] @ ([(''env'', ''RATE'')],
           \<lparr>CanSet = True, contents = VOther reflect_Float64\<rparr>) # [])))
      = (PointerTo (Struct (map (field_after Arch64 [''RATE'' \<mapsto> ''1.5'']) []
           @ ([(''env'', ''RATE'')], \<lparr>CanSet = True, contents = VOther reflect_Float64\<rparr>) # [])),
         Some (EnvError (Tag_Get [(''env'', ''RATE'')] ''env'') (UnsupportedKind reflect_Float64)))"
    by (rule LoadStruct_stops_at_failing_field [OF e0 [of "[''RATE'' \<mapsto> ''1.5'']"] r2 r3, where g = "VOther reflect_Float64"
      and e = "UnsupportedKind reflect_Float64" and post = "[]",
          THEN conjunct1, THEN mp],
        rule disjI2, rule disjI2, rule disjI2, rule disjI2, rule disjI2,
        rule exI [of _ reflect_Float64])
      (simp)
  then have c6: "LoadStruct Arch64 [''RATE'' \<mapsto> ''1.5'']
        (PointerTo (Struct [([(''env'', ''RATE'')],
                             \<lparr>CanSet = True, contents = VOther reflect_Float64\<rparr>)]))
      = (PointerTo (Struct [([(''env'', ''RATE'')],
                             \<lparr>CanSet = True, contents = VOther reflect_Float64\<rparr>)]),
         Some (EnvError ''RATE'' (UnsupportedKind reflect_Float64)))"
    by (simp add: Tag_Get_def)
  from i1' i4 c1 b4 c2 m4 c3 s4 s5 s6 c4 f4 c5 c6 show ?thesis by (intro conjI)
qed

section \<open>Rendering and parsing integers\<close>

lemma of_char_digit_char: "d < 10 \<Longrightarrow> (of_char (digit_char d) :: nat) = 48 + d"
  by (simp add: digit_char_def)

lemma of_char_int: "(of_char c :: int) = int (of_char c :: nat)"
  by (simp add: of_nat_of_char)

lemma is_digit_digit_char: "d < 10 \<Longrightarrow> is_digit (digit_char d)"
  by (simp add: is_digit_def of_char_int of_char_digit_char)

lemma digit_val_digit_char: "d < 10 \<Longrightarrow> digit_val (digit_char d) = int d"
  by (simp add: digit_val_def of_char_int of_char_digit_char)

lemma FormatUint_not_Nil: "FormatUint n \<noteq> []"
  by (subst FormatUint.simps) simp

lemma FormatUint_digits: "c \<in> set (FormatUint n) \<Longrightarrow> is_digit c"
proof (induction n arbitrary: c rule: FormatUint.induct)
  case (1 n)
  show ?case
  proof (cases "n < 10")
    case True
    with "1.prems" show ?thesis
      by (subst (asm) FormatUint.simps) (simp add: is_digit_digit_char)
  next
    case False
    with "1.prems" have "c \<in> set (FormatUint (n div 10)) \<or> c = digit_char (n mod 10)"
      by (subst (asm) FormatUint.simps) auto
    with "1.IH" [OF False] show ?thesis
      by (auto simp: is_digit_digit_char)
  qed
qed

lemma ParseUint_loop_append:
  "ParseUint_loop m acc (xs @ ys) =
     (case ParseUint_loop m acc xs of
        (k, None) \<Rightarrow> ParseUint_loop m k ys
      | (k, Some e) \<Rightarrow> (k, Some e))"
  by (induction xs arbitrary: acc) (auto simp: Let_def)

lemma ParseUint_loop_digit:
  assumes "d < 10" and "0 \<le> k" and "k * 10 + int d \<le> m" and "m \<le> maxUint64"
  shows "ParseUint_loop m k [digit_char d] = (k * 10 + int d, None)"
proof -
  from assms have k: "k * 10 + int d < 2 ^ 64" "k * 10 < 2 ^ 64" "0 \<le> k * 10"
    by (simp_all add: maxUint64_def)
  from assms have c: "\<not> maxUint64 div 10 + 1 \<le> k"
    by (simp add: maxUint64_def)
  from k assms have u: "u64 (k * 10) = k * 10" "u64 (k * 10 + int d) = k * 10 + int d"
    by (simp_all add: u64_def)
  from assms c u show ?thesis
    by (simp add: is_digit_digit_char digit_val_digit_char Let_def)
qed

lemma ParseUint_loop_FormatUint:
  "int n \<le> m \<Longrightarrow> m \<le> maxUint64 \<Longrightarrow> ParseUint_loop m 0 (FormatUint n) = (int n, None)"
proof (induction n rule: FormatUint.induct)
  case (1 n)
  show ?case
  proof (cases "n < 10")
    case True
    with "1.prems" ParseUint_loop_digit [of n 0 m] show ?thesis
      by (subst FormatUint.simps) simp
  next
    case False
    have le: "int (n div 10) \<le> m" using "1.prems"(1) by linarith
    have eq: "int (n div 10) * 10 + int (n mod 10) = int n"
      by (metis mult.commute of_nat_add of_nat_mult of_nat_numeral mult_div_mod_eq)
    from "1.IH" [OF False le "1.prems"(2)]
    have "ParseUint_loop m 0 (FormatUint (n div 10)) = (int (n div 10), None)" .
    moreover have "ParseUint_loop m (int (n div 10)) [digit_char (n mod 10)] = (int n, None)"
      using ParseUint_loop_digit [of "n mod 10" "int (n div 10)" m] "1.prems" eq by simp
    ultimately show ?thesis
      using False by (subst FormatUint.simps) (simp add: ParseUint_loop_append)
  qed
qed

lemma is_digit_ascii:
  "is_digit c \<Longrightarrow>
     c \<noteq> CHR ''+'' \<and> c \<noteq> CHR ''-'' \<and> c \<noteq> CHR '','' \<and> \<not> asciiSpace c \<and> (of_char c :: nat) < 128"
  by (auto simp: is_digit_def asciiSpace_def of_char_int)

lemma ParseUint_FormatUint:
  assumes "bs = (if bitSize = 0 then IntSize a else bitSize)" and "bs = 32 \<or> bs = 64"
    and "int n \<le> 2 ^ (bs - 1)"
  shows "ParseUint a (FormatUint n) bitSize = (int n, None)"
proof -
  from assms(2) show ?thesis
  proof
    assume b: "bs = 32"
    with assms(3) have "int n \<le> 2 ^ 32 - 1" by simp
    then have "ParseUint_loop (2 ^ 32 - 1) 0 (FormatUint n) = (int n, None)"
      by (rule ParseUint_loop_FormatUint) (simp add: maxUint64_def)
    with assms(1) b show ?thesis
      by (simp add: ParseUint_def FormatUint_not_Nil u64_def maxUint64_def
          del: ParseUint_loop.simps)
  next
    assume b: "bs = 64"
    with assms(3) have "int n \<le> 2 ^ 64 - 1" by simp
    then have "ParseUint_loop (2 ^ 64 - 1) 0 (FormatUint n) = (int n, None)"
      by (rule ParseUint_loop_FormatUint) (simp add: maxUint64_def)
    with assms(1) b show ?thesis
      by (simp add: ParseUint_def FormatUint_not_Nil u64_def maxUint64_def
          del: ParseUint_loop.simps)
  qed
qed

lemma hd_FormatUint: "hd (FormatUint n) \<noteq> CHR ''+'' \<and> hd (FormatUint n) \<noteq> CHR ''-''"
proof -
  have "hd (FormatUint n) \<in> set (FormatUint n)"
    by (simp add: FormatUint_not_Nil)
  then have "is_digit (hd (FormatUint n))" by (rule FormatUint_digits)
  then show ?thesis by (simp add: is_digit_ascii)
qed

lemma ParseInt_Itoa:
  assumes bs: "bs = (if bitSize = 0 then IntSize a else bitSize)" "bs = 32 \<or> bs = 64"
    and x: "fits bs x"
  shows "ParseInt a (Itoa x) bitSize = Inr x"
proof (cases "x < 0")
  case True
  from x have "int (nat (- x)) \<le> 2 ^ (bs - 1)" by (simp add: fits_def)
  from ParseUint_FormatUint [OF bs this]
  have p: "ParseUint a (FormatUint (nat (- x))) bitSize = (int (nat (- x)), None)" .
  from True x have "\<not> 2 ^ (bs - 1) < - x" by (simp add: fits_def)
  with True p bs(1) show ?thesis
    by (simp add: ParseInt_def Itoa_def Let_def)
next
  case False
  from x False have "int (nat x) \<le> 2 ^ (bs - 1)" by (simp add: fits_def)
  from ParseUint_FormatUint [OF bs this]
  have p: "ParseUint a (FormatUint (nat x)) bitSize = (int (nat x), None)" .
  from False x have "\<not> 2 ^ (bs - 1) \<le> x" by (simp add: fits_def)
  with False p bs(1) hd_FormatUint [of "nat x"] show ?thesis
    by (simp add: ParseInt_def Itoa_def Let_def FormatUint_not_Nil)
qed

lemma to_signed_fits: "0 < w \<Longrightarrow> fits w x \<Longrightarrow> to_signed w x = x"
proof -
  assume w: "0 < w" and x: "fits w x"
  from w have p: "(2::int) ^ w = 2 * 2 ^ (w - 1)"
    by (cases w) simp_all
  from x have "0 \<le> x + 2 ^ (w - 1)" "x + 2 ^ (w - 1) < 2 ^ w"
    by (simp_all add: fits_def p)
  then show ?thesis by (simp add: to_signed_def)
qed

lemma IntSize_cases: "IntSize a = 32 \<or> IntSize a = 64"
  by (cases a) simp_all

lemma Atoi_Itoa: "fits (IntSize a) x \<Longrightarrow> Atoi a (Itoa x) = Inr x"
proof -
  assume x: "fits (IntSize a) x"
  have "ParseInt a (Itoa x) 0 = Inr x"
    by (rule ParseInt_Itoa [where bs = "IntSize a"]) (simp_all add: IntSize_cases x)
  moreover have "0 < IntSize a" by (cases a) simp_all
  ultimately show ?thesis using x by (simp add: Atoi_def to_signed_fits)
qed

lemma ParseInt64_Itoa: "fits 64 x \<Longrightarrow> ParseInt a (Itoa x) 64 = Inr x"
  by (rule ParseInt_Itoa [where bs = 64]) simp_all

lemma fits_32_IntSize: "fits 32 x \<Longrightarrow> fits (IntSize a) x"
  by (cases a) (auto simp: fits_def)

subsection \<open>White space\<close>

lemma space_encodings_bytes:
  "e \<in> set space_encodings \<Longrightarrow>
     e \<noteq> [] \<and> 128 \<le> (of_char (hd e) :: nat) \<and> 128 \<le> (of_char (last e) :: nat)"
  by (auto simp: space_encodings_def)

lemma space_width_front_ascii:
  assumes "(of_char c :: nat) < 128" and "\<not> asciiSpace c"
  shows "space_width_front (c # cs) = 0"
proof -
  have "\<not> prefix e (c # cs)" if "e \<in> set space_encodings" for e
  proof
    assume "prefix e (c # cs)"
    moreover from that have "e \<noteq> []" "128 \<le> (of_char (hd e) :: nat)"
      by (simp_all add: space_encodings_bytes)
    ultimately have "hd e = c" by (cases e) auto
    with \<open>128 \<le> (of_char (hd e) :: nat)\<close> assms(1) show False by simp
  qed
  then have "find (\<lambda>e. prefix e (c # cs)) space_encodings = None"
    by (auto simp: find_None_iff)
  with assms(2) show ?thesis by (simp add: space_width_front_def)
qed

lemma space_width_back_ascii:
  assumes "(of_char c :: nat) < 128" and "\<not> asciiSpace c"
  shows "space_width_back (cs @ [c]) = 0"
proof -
  have "\<not> suffix e (cs @ [c])" if "e \<in> set space_encodings" for e
  proof
    assume s: "suffix e (cs @ [c])"
    from that have e: "e \<noteq> []" "128 \<le> (of_char (last e) :: nat)"
      by (simp_all add: space_encodings_bytes)
    from s obtain zs where "cs @ [c] = zs @ e"
      by (auto simp: suffix_def)
    with e(1) have "last e = c"
      by (metis last_appendR last_snoc)
    with e(2) assms(1) show False by simp
  qed
  then have "find (\<lambda>e. suffix e (cs @ [c])) space_encodings = None"
    by (auto simp: find_None_iff)
  with assms(2) show ?thesis by (simp add: space_width_back_def)
qed

lemma TrimSpace_no_space:
  assumes "s \<noteq> []" and "\<forall>c \<in> set s. (of_char c :: nat) < 128 \<and> \<not> asciiSpace c"
  shows "TrimSpace s = s"
proof -
  from assms(1) obtain c cs where f: "s = c # cs" by (cases s) auto
  from assms(1) obtain d ds where b: "s = ds @ [d]" by (cases s rule: rev_cases) auto
  from f assms(2) have "space_width_front s = 0"
    by (simp add: space_width_front_ascii)
  then have l: "TrimLeft s = s" by (subst TrimLeft.simps) simp
  from b assms(2) have "space_width_back s = 0"
    by (simp add: space_width_back_ascii)
  then have "TrimRight s = s" by (subst TrimRight.simps) simp
  with l show ?thesis by (simp add: TrimSpace_def)
qed

lemma Itoa_chars: "c \<in> set (Itoa x) \<Longrightarrow> c = CHR ''-'' \<or> is_digit c"
  by (auto simp: Itoa_def dest: FormatUint_digits split: if_splits)

lemma Itoa_not_Nil: "Itoa x \<noteq> []"
  by (simp add: Itoa_def FormatUint_not_Nil)

lemma Itoa_no_comma: "CHR '','' \<notin> set (Itoa x)"
  using Itoa_chars [of "CHR '',''" x] is_digit_ascii [of "CHR '',''"] by auto

lemma TrimSpace_Itoa: "TrimSpace (Itoa x) = Itoa x"
proof (rule TrimSpace_no_space)
  show "Itoa x \<noteq> []" by (rule Itoa_not_Nil)
  show "\<forall>c \<in> set (Itoa x). (of_char c :: nat) < 128 \<and> \<not> asciiSpace c"
  proof
    fix c assume "c \<in> set (Itoa x)"
    then have "c = CHR ''-'' \<or> is_digit c" by (rule Itoa_chars)
    then show "(of_char c :: nat) < 128 \<and> \<not> asciiSpace c"
    proof
      assume "c = CHR ''-''"
      then show ?thesis by (simp add: asciiSpace_def)
    next
      assume "is_digit c"
      then show ?thesis by (simp add: is_digit_ascii)
    qed
  qed
qed

subsection \<open>Joining and splitting\<close>

lemma Split_no_sep_single: "sep \<notin> set s \<Longrightarrow> Split s sep = [s]"
  by (induction s) auto

lemma Split_append_sep: "sep \<notin> set s \<Longrightarrow> Split (s @ sep # r) sep = s # Split r sep"
  by (induction s) auto

lemma Split_Join:
  "ss \<noteq> [] \<Longrightarrow> \<forall>s \<in> set ss. sep \<notin> set s \<Longrightarrow> Split (Join ss [sep]) sep = ss"
proof (induction ss "[sep]" rule: Join.induct)
  case 1
  then show ?case by simp
next
  case (2 x)
  then show ?case by (simp add: Split_no_sep_single)
next
  case (3 x y ys)
  then show ?case by (simp add: Split_append_sep)
qed

subsection \<open>The round trip\<close>

lemma token_value_Itoa: "token_value parse (Itoa x) = parse (Itoa x)"
  by (simp add: token_value_def TrimSpace_Itoa Itoa_not_Nil)

lemma Split_Join_Itoa:
  "seq \<noteq> [] \<Longrightarrow> Split (Join (map Itoa seq) '','') (CHR '','') = map Itoa seq"
  by (rule Split_Join) (auto simp: Itoa_no_comma)

text \<open>
  C8, as stated: for every sequence of integers that fit the width, parsing the
  comma-join of their decimal renderings gives the sequence back. This fails for the
  empty sequence: its join is the empty string, which \<open>strings.Split\<close> turns into one
  empty token, and the parsers return the one-element sequence \<open>[0]\<close>.
\<close>

theorem empty_sequence_roundtrip_counterexample:
  "Join (map Itoa []) '','' = []
   \<and> parseIntSlice Arch32 (Join (map Itoa []) '','') = Inr [0]
   \<and> parseInt64Slice Arch32 (Join (map Itoa []) '','') = Inr [0]
   \<and> parseIntSlice Arch64 (Join (map Itoa []) '','') = Inr [0]
   \<and> parseInt64Slice Arch64 (Join (map Itoa []) '','') = Inr [0]
   \<and> parseIntSlice Arch32 (Join (map Itoa []) '','') \<noteq> Inr []
   \<and> parseInt64Slice Arch64 (Join (map Itoa []) '','') \<noteq> Inr []"
proof -
  have t: "TrimSpace [] = []" by code_simp
  have p: "parseIntSlice a [] = Inr [0]" "parseInt64Slice a [] = Inr [0]" for a
    by (simp_all add: parseIntSlice_def parseInt64Slice_def t)
  show ?thesis by (simp add: p)
qed

text \<open>
  C8, amended: for every non-empty sequence of integers, parsing the comma-join of
  their decimal renderings gives the sequence back: with \<open>parseIntSlice\<close> if every
  value fits \<open>int\<close> (so in particular if every value fits 32 bits, on either
  platform), with \<open>parseInt64Slice\<close> if every value fits 64 bits.
\<close>

theorem join_parse_roundtrip_amended:
  assumes "seq \<noteq> []"
  shows "((\<forall>x \<in> set seq. fits (IntSize a) x) \<longrightarrow>
            parseIntSlice a (Join (map Itoa seq) '','') = Inr seq)
       \<and> ((\<forall>x \<in> set seq. fits 32 x) \<longrightarrow>
            parseIntSlice a (Join (map Itoa seq) '','') = Inr seq)
       \<and> ((\<forall>x \<in> set seq. fits 64 x) \<longrightarrow>
            parseInt64Slice a (Join (map Itoa seq) '','') = Inr seq)"
proof -
  note sp = Split_Join_Itoa [OF assms]
  have 1: "parseIntSlice a (Join (map Itoa seq) '','') = Inr seq"
    if "\<forall>x \<in> set seq. fits (IntSize a) x"
  proof (rule parseIntSlice_ok)
    from that have "\<forall>x \<in> set seq. token_value (Atoi a) (Itoa x) = Inr x"
      by (simp add: token_value_Itoa Atoi_Itoa)
    then show "list_all2 (\<lambda>p x. token_value (Atoi a) p = Inr x)
        (Split (Join (map Itoa seq) '','') (CHR '','')) seq"
      by (simp add: sp list_all2_map1 list_all2_same)
  qed
  have 2: "parseIntSlice a (Join (map Itoa seq) '','') = Inr seq"
    if "\<forall>x \<in> set seq. fits 32 x"
    using that by (intro 1) (auto intro: fits_32_IntSize)
  have 3: "parseInt64Slice a (Join (map Itoa seq) '','') = Inr seq"
    if "\<forall>x \<in> set seq. fits 64 x"
  proof (rule parseInt64Slice_ok)
    from that have "\<forall>x \<in> set seq. token_value (\<lambda>s. ParseInt a s 64) (Itoa x) = Inr x"
      by (simp add: token_value_Itoa ParseInt64_Itoa)
    then show "list_all2 (\<lambda>p x. token_value (\<lambda>s. ParseInt a s 64) p = Inr x)
        (Split (Join (map Itoa seq) '','') (CHR '','')) seq"
      by (simp add: sp list_all2_map1 list_all2_same)
  qed
  from 1 2 3 show ?thesis by blast
qed

theorem join_parse_roundtrip_amended_witness:
  "[8080, - 2, 0, 2147483647, - 2147483648] \<noteq> ([] :: int list)
   \<and> list_all (fits 32) [8080, - 2, 0, 2147483647, - 2147483648]
   \<and> list_all (fits (IntSize Arch32)) [8080, - 2, 0, 2147483647, - 2147483648]
   \<and> Join (map Itoa [8080, - 2, 0, 2147483647, - 2147483648]) '',''
       = ''8080,-2,0,2147483647,-2147483648''
   \<and> parseIntSlice Arch32 ''8080,-2,0,2147483647,-2147483648''
       = Inr [8080, - 2, 0, 2147483647, - 2147483648]
   \<and> parseIntSlice Arch64 ''8080,-2,0,2147483647,-2147483648''
       = Inr [8080, - 2, 0, 2147483647, - 2147483648]
   \<and> [9223372036854775807, - 9223372036854775808, 7] \<noteq> ([] :: int list)
   \<and> list_all (fits 64) [9223372036854775807, - 9223372036854775808, 7]
   \<and> Join (map Itoa [9223372036854775807, - 9223372036854775808, 7]) '',''
       = ''9223372036854775807,-9223372036854775808,7''
   \<and> parseInt64Slice Arch32 ''9223372036854775807,-9223372036854775808,7''
       = Inr [9223372036854775807, - 9223372036854775808, 7]"
proof -
  let ?s = "[8080, - 2, 0, 2147483647, - 2147483648] :: int list"
  let ?t = "[9223372036854775807, - 9223372036854775808, 7] :: int list"
  have s1: "?s \<noteq> []" by simp
  have s2: "\<forall>x \<in> set ?s. fits 32 x" by (simp add: fits_def)
  have s3: "\<forall>x \<in> set ?s. fits (IntSize Arch32) x" by (simp add: fits_def)
  have s4: "Join (map Itoa ?s) '','' = ''8080,-2,0,2147483647,-2147483648''"
    by (simp add: Itoa_def FormatUint.simps digit_char_def char_of_eq_iff)
  have t1: "?t \<noteq> []" by simp
  have t2: "\<forall>x \<in> set ?t. fits 64 x" by (simp add: fits_def)
  have t4: "Join (map Itoa ?t) '','' = ''9223372036854775807,-9223372036854775808,7''"
    by (simp add: Itoa_def FormatUint.simps digit_char_def char_of_eq_iff)
  from join_parse_roundtrip_amended [OF s1, of Arch32] s3
  have a: "parseIntSlice Arch32 (Join (map Itoa ?s) '','') = Inr ?s" by blast
  from join_parse_roundtrip_amended [OF s1, of Arch64] s2
  have b: "parseIntSlice Arch64 (Join (map Itoa ?s) '','') = Inr ?s" by blast
  from join_parse_roundtrip_amended [OF t1, of Arch32] t2
  have c: "parseInt64Slice Arch32 (Join (map Itoa ?t) '','') = Inr ?t" by blast
  from s2 have s2': "list_all (fits 32) ?s" by (simp only: list_all_iff)
  from s3 have s3': "list_all (fits (IntSize Arch32)) ?s" by (simp only: list_all_iff)
  from t2 have t2': "list_all (fits 64) ?t" by (simp only: list_all_iff)
  from s1 s2' s3' s4 t1 t2' t4 a [unfolded s4] b [unfolded s4] c [unfolded t4]
  show ?thesis by (intro conjI)
qed

end
